theory Spec2Isabelle
  imports Main "HOL-Library.Word" "HOL-Library.Signed_Division"
begin

section \<open>Data model of the index manager\<close>

text \<open>
  Go's \<open>uint64\<close> is a 64-bit word read unsigned; \<open>int\<close>, \<open>int64\<close> and
  \<open>time.Duration\<close> are 64-bit words read in two's complement (\<open>sint\<close>).
\<close>

type_synonym uint64 = "64 word"
type_synonym int64 = "64 word"
type_synonym Duration = "64 word"

datatype Operation = OpAdd | OpPop

record WALEntry =
  Op :: Operation
  Host :: string
  BlobID :: string
  Position :: uint64
  Size :: uint64

text \<open>The blob record of the index: fields \<open>id\<close>, \<open>position\<close>, \<open>size\<close> in the source.\<close>

record blob =
  blob_id :: string
  blob_position :: uint64
  blob_size :: uint64

datatype index_error = ErrDuplicate | ErrEmpty

datatype error =
    ErrOpenWAL
  | ErrOpenIndex
  | ErrCheckWALEmpty
  | ErrRecover
  | ErrLoadIndex
  | ErrWriteWAL
  | ErrUpdateIndex index_error
  | ErrIndex index_error
  | ErrFinalDump
  | ErrCloseWAL
  | ErrCloseIndex
  | ErrSyncerStillRunning

text \<open>
  Modelled from the spec: the type \<open>Index\<close> is not among the sources. It maps a host
  to its FIFO queue of blobs and keeps the hosts in a stable order: an association list
  in order of first insertion, a host with no blob being pruned.
\<close>

type_synonym Index = "(string \<times> blob list) list"

definition newIndex :: Index where
  "newIndex = []"

definition index_queue :: "Index \<Rightarrow> string \<Rightarrow> blob list" where
  "index_queue idx host = (case map_of idx host of None \<Rightarrow> [] | Some q \<Rightarrow> q)"

definition index_put :: "Index \<Rightarrow> string \<Rightarrow> blob list \<Rightarrow> Index" where
  "index_put idx host q =
     (if q = [] then filter (\<lambda>(h, _). h \<noteq> host) idx
      else if map_of idx host = None then idx @ [(host, q)]
      else map (\<lambda>(h, q'). if h = host then (h, q) else (h, q')) idx)"

text \<open>
  Modelled from the spec: \<open>Index.add\<close> is not among the sources. It appends to the
  host's queue and rejects an id already present for that host.
\<close>

definition index_add :: "Index \<Rightarrow> string \<Rightarrow> string \<Rightarrow> uint64 \<Rightarrow> uint64 \<Rightarrow> index_error + Index" where
  "index_add idx host i pos sz =
     (if i \<in> blob_id ` set (index_queue idx host) then Inl ErrDuplicate
      else Inr (index_put idx host
             (index_queue idx host @ [\<lparr>blob_id = i, blob_position = pos, blob_size = sz\<rparr>])))"

text \<open>
  A channel made by \<open>make(chan T)\<close> is unbuffered: it holds no value, and all that the
  model keeps of it is whether it has been closed. A channel field that was never
  assigned is Go's nil channel, \<open>None\<close> here: a send or a receive on it blocks forever.
\<close>

record chan =
  closed :: bool

definition make_chan :: chan where
  "make_chan = \<lparr>closed = False\<rparr>"

text \<open>
  The struct \<open>IndexManager\<close>. The two files are kept by their contents (the decoded
  records); \<open>walCommit\<close>, \<open>walCommited\<close> and \<open>walNotifyListeners\<close> are pointers to
  atomics, \<open>None\<close> while nil; the encoders, decoders, the queue directory name and the
  time of the last dump carry no behaviour of interest and are left out.
\<close>

record IndexManager =
  hostIndex :: Index
  indexFile :: "WALEntry list"
  opsSinceDump :: int64
  totalOps :: uint64
  walFile :: "WALEntry list"
  useCommit :: bool
  walCommit :: "uint64 option"
  walCommited :: "uint64 option"
  walNotifyListeners :: "int64 option"
  walSyncerRunning :: bool
  walStopChan :: "chan option"
  WalIoPercent :: int64
  WalMinInterval :: Duration
  stopChan :: "chan option"

section \<open>Commit counters\<close>

text \<open>
  \<open>IsWALCommited\<close>: \<open>im.walCommited.Load() >= commit\<close>. The result is \<open>None\<close> when the
  pointer is nil (a nil dereference panics).
\<close>

definition IsWALCommited :: "IndexManager \<Rightarrow> uint64 \<Rightarrow> bool option" where
  "IsWALCommited im commit =
     (case walCommited im of None \<Rightarrow> None | Some durable \<Rightarrow> Some (durable \<ge> commit))"

text \<open>\<open>WALCommit\<close>: \<open>im.walCommit.Add(1)\<close>, which wraps around at \<open>2 ^ 64\<close>.\<close>

definition WALCommit :: "IndexManager \<Rightarrow> (uint64 \<times> IndexManager) option" where
  "WALCommit im =
     (case walCommit im of
        None \<Rightarrow> None
      | Some flying \<Rightarrow> Some (flying + 1, im\<lparr>walCommit := Some (flying + 1)\<rparr>))"

section \<open>The write-ahead log and Add\<close>

text \<open>
  Modelled from the spec: \<open>unsafeWriteToWAL\<close> is not among the sources. It encodes
  one record and appends it to the WAL file; a write failure is returned to the caller.
  Whether the write succeeds is the first argument, decided by the file system.
\<close>

definition unsafeWriteToWAL ::
  "bool \<Rightarrow> Operation \<Rightarrow> string \<Rightarrow> string \<Rightarrow> uint64 \<Rightarrow> uint64 \<Rightarrow> IndexManager
     \<Rightarrow> error option \<times> IndexManager" where
  "unsafeWriteToWAL ok opr host i pos sz im =
     (if ok
      then (None, im\<lparr>walFile := walFile im @
              [\<lparr>Op = opr, Host = host, BlobID = i, Position = pos, Size = sz\<rparr>]\<rparr>)
      else (Some ErrWriteWAL, im))"

text \<open>
  \<open>addCommitted\<close> and \<open>add\<close>, under the manager lock from entry to return. The result
  is \<open>None\<close> on a panic, else the returned values and the manager after the call.
\<close>

definition addCommitted ::
  "bool \<Rightarrow> string \<Rightarrow> string \<Rightarrow> uint64 \<Rightarrow> uint64 \<Rightarrow> IndexManager
     \<Rightarrow> ((uint64 \<times> error option) \<times> IndexManager) option" where
  "addCommitted wal_ok host i pos sz im =
     (case unsafeWriteToWAL wal_ok OpAdd host i pos sz im of
        (Some e, im1) \<Rightarrow> Some ((0, Some ErrWriteWAL), im1)
      | (None, im1) \<Rightarrow>
          (case WALCommit im1 of
             None \<Rightarrow> None
           | Some (commit, im2) \<Rightarrow>
               (case index_add (hostIndex im2) host i pos sz of
                  Inl e \<Rightarrow> Some ((commit, Some (ErrUpdateIndex e)), im2)
                | Inr idx \<Rightarrow>
                    Some ((commit, None),
                      im2\<lparr>hostIndex := idx,
                          opsSinceDump := opsSinceDump im2 + 1,
                          totalOps := totalOps im2 + 1\<rparr>))))"

definition add ::
  "bool \<Rightarrow> string \<Rightarrow> string \<Rightarrow> uint64 \<Rightarrow> uint64 \<Rightarrow> IndexManager
     \<Rightarrow> error option \<times> IndexManager" where
  "add wal_ok host i pos sz im =
     (case unsafeWriteToWAL wal_ok OpAdd host i pos sz im of
        (Some e, im1) \<Rightarrow> (Some ErrWriteWAL, im1)
      | (None, im1) \<Rightarrow>
          (case index_add (hostIndex im1) host i pos sz of
             Inl e \<Rightarrow> (Some (ErrUpdateIndex e), im1)
           | Inr idx \<Rightarrow>
               (None,
                 im1\<lparr>hostIndex := idx,
                     opsSinceDump := opsSinceDump im1 + 1,
                     totalOps := totalOps im1 + 1\<rparr>)))"

definition Add ::
  "bool \<Rightarrow> string \<Rightarrow> string \<Rightarrow> uint64 \<Rightarrow> uint64 \<Rightarrow> IndexManager
     \<Rightarrow> ((uint64 \<times> error option) \<times> IndexManager) option" where
  "Add wal_ok host i pos sz im =
     (if \<not> useCommit im
      then (case add wal_ok host i pos sz im of (e, im') \<Rightarrow> Some ((0, e), im'))
      else addCommitted wal_ok host i pos sz im)"

section \<open>The sleep of the commit syncer\<close>

text \<open>Go's \<open>/\<close> on signed integers truncates towards zero.\<close>

definition go_div :: "int64 \<Rightarrow> int64 \<Rightarrow> int64" where
  "go_div a b = word_of_int (sint a sdiv sint b)"

text \<open>
  The two statements of \<open>walCommitsSyncer\<close> that compute the sleep:
  \<open>sleepTime := lastTrySyncDuration * time.Duration((100-im.WalIoPercent)/im.WalIoPercent)\<close>,
  raised to \<open>WalMinInterval\<close> when below it. The quotient is taken first, on integers;
  the product wraps around. \<open>None\<close> is the panic of a division by zero.
\<close>

definition syncerSleepTime :: "Duration \<Rightarrow> int64 \<Rightarrow> Duration \<Rightarrow> Duration option" where
  "syncerSleepTime lastTrySyncDuration p minInterval =
     (if p = 0 then None
      else (let sleepTime = lastTrySyncDuration * go_div (100 - p) p
            in Some (if sleepTime <s minInterval then minInterval else sleepTime)))"

text \<open>
  The sleep as the specification words it: \<open>max(WalMinInterval, lastSyncDuration \<times> (100\<minus>p)/p)\<close>,
  on unbounded integers (nanoseconds), the product taken before the quotient.
\<close>

definition spec_sleep :: "int \<Rightarrow> int \<Rightarrow> int \<Rightarrow> int" where
  "spec_sleep lastSyncDuration p minInterval =
     max minInterval (lastSyncDuration * (100 - p) div p)"

section \<open>Snapshot, recovery and construction\<close>

text \<open>
  Modelled from the spec: \<open>performDump\<close>, \<open>loadIndex\<close>, \<open>RecoverFromCrash\<close> and
  \<open>unsafeIsWALEmpty\<close> are not among the sources. The snapshot is the sequence of ADD
  records obtained by walking the index in host order, each queue in FIFO order; a
  successful dump replaces the snapshot and truncates the WAL, a failed one changes
  nothing. Replay applies a record idempotently: an ADD that collides is skipped, a POP
  whose blob is not the head of the host's queue is skipped.
\<close>

definition dump_index :: "Index \<Rightarrow> WALEntry list" where
  "dump_index idx =
     concat (map (\<lambda>(h, q).
       map (\<lambda>b. \<lparr>Op = OpAdd, Host = h, BlobID = blob_id b,
                  Position = blob_position b, Size = blob_size b\<rparr>) q) idx)"

definition replay_entry :: "Index \<Rightarrow> WALEntry \<Rightarrow> Index" where
  "replay_entry idx e =
     (case Op e of
        OpAdd \<Rightarrow>
          (case index_add idx (Host e) (BlobID e) (Position e) (Size e) of
             Inl _ \<Rightarrow> idx
           | Inr idx' \<Rightarrow> idx')
      | OpPop \<Rightarrow>
          (case index_queue idx (Host e) of
             [] \<Rightarrow> idx
           | b # q \<Rightarrow> if blob_id b = BlobID e then index_put idx (Host e) q else idx))"

definition replay :: "WALEntry list \<Rightarrow> Index \<Rightarrow> Index" where
  "replay es idx = foldl replay_entry idx es"

definition performDump :: "bool \<Rightarrow> IndexManager \<Rightarrow> error option \<times> IndexManager" where
  "performDump ok im =
     (if ok
      then (None, im\<lparr>indexFile := dump_index (hostIndex im), walFile := [], opsSinceDump := 0\<rparr>)
      else (Some ErrFinalDump, im))"

definition loadIndex :: "bool \<Rightarrow> IndexManager \<Rightarrow> error option \<times> IndexManager" where
  "loadIndex ok im =
     (if ok then (None, im\<lparr>hostIndex := replay (indexFile im) newIndex\<rparr>)
      else (Some ErrLoadIndex, im))"

definition RecoverFromCrash :: "bool \<Rightarrow> bool \<Rightarrow> IndexManager \<Rightarrow> error option \<times> IndexManager" where
  "RecoverFromCrash load_ok dump_ok im =
     (case loadIndex load_ok im of
        (Some e, im1) \<Rightarrow> (Some ErrRecover, im1)
      | (None, im1) \<Rightarrow>
          (case performDump dump_ok (im1\<lparr>hostIndex := replay (walFile im1) (hostIndex im1)\<rparr>) of
             (Some e, im2) \<Rightarrow> (Some ErrRecover, im2)
           | (None, im2) \<Rightarrow> (None, im2)))"

definition unsafeIsWALEmpty :: "bool \<Rightarrow> IndexManager \<Rightarrow> error + bool" where
  "unsafeIsWALEmpty ok im = (if ok then Inr (walFile im = []) else Inl ErrCheckWALEmpty)"

text \<open>The outcomes of the file operations of a construction, decided by the file system.\<close>

record io =
  openWAL_ok :: bool
  openIndex_ok :: bool
  statWAL_ok :: bool
  loadIndex_ok :: bool
  dump_ok :: bool

text \<open>
  \<open>NewIndexManager\<close>, up to the start of the goroutines: it opens the two files
  (\<open>walData\<close> and \<open>indexData\<close> are what they hold), builds the struct, initialises the
  commit fields only when \<open>useCommit\<close> is set, then recovers or loads. The defaults are
  \<open>WalIoPercent = 10\<close> and \<open>WalMinInterval = 10 ms\<close>; a field the struct literal does
  not set has Go's zero value.
\<close>

definition new_manager :: "WALEntry list \<Rightarrow> WALEntry list \<Rightarrow> bool \<Rightarrow> IndexManager" where
  "new_manager walData indexData commit =
     \<lparr>hostIndex = newIndex,
      indexFile = indexData,
      opsSinceDump = 0,
      totalOps = 0,
      walFile = walData,
      useCommit = commit,
      walCommit = (if commit then Some 0 else None),
      walCommited = (if commit then Some 0 else None),
      walNotifyListeners = (if commit then Some 0 else None),
      walSyncerRunning = False,
      walStopChan = (if commit then Some make_chan else None),
      WalIoPercent = (if commit then 10 else 0),
      WalMinInterval = (if commit then 10000000 else 0),
      stopChan = (if commit then Some make_chan else None)\<rparr>"

definition NewIndexManager ::
  "io \<Rightarrow> WALEntry list \<Rightarrow> WALEntry list \<Rightarrow> bool \<Rightarrow> error + IndexManager" where
  "NewIndexManager fs walData indexData commit =
     (if \<not> openWAL_ok fs then Inl ErrOpenWAL
      else if \<not> openIndex_ok fs then Inl ErrOpenIndex
      else
        (let im = new_manager walData indexData commit in
         case unsafeIsWALEmpty (statWAL_ok fs) im of
           Inl e \<Rightarrow> Inl ErrCheckWALEmpty
         | Inr wal_empty \<Rightarrow>
             if \<not> wal_empty
             then (case RecoverFromCrash (loadIndex_ok fs) (dump_ok fs) im of
                     (Some e, _) \<Rightarrow> Inl ErrRecover
                   | (None, im') \<Rightarrow> Inr im')
             else (case loadIndex (loadIndex_ok fs) im of
                     (Some e, _) \<Rightarrow> Inl ErrLoadIndex
                   | (None, im') \<Rightarrow> Inr im')))"

section \<open>Example inputs\<close>

text \<open>A file system on which every operation succeeds, and scenario S2's manager: host
  \<open>h\<close> holds the blob \<open>b1\<close>, in grouped-commit mode.\<close>

definition io_ok :: io where
  "io_ok = \<lparr>openWAL_ok = True, openIndex_ok = True, statWAL_ok = True,
            loadIndex_ok = True, dump_ok = True\<rparr>"

definition blob_b1 :: blob where
  "blob_b1 = \<lparr>blob_id = ''b1'', blob_position = 0, blob_size = 10\<rparr>"

definition add_b1 :: WALEntry where
  "add_b1 = \<lparr>Op = OpAdd, Host = ''h'', BlobID = ''b1'', Position = 0, Size = 10\<rparr>"

definition manager_b1 :: "bool \<Rightarrow> IndexManager" where
  "manager_b1 commit = (new_manager [] [] commit)\<lparr>hostIndex := [(''h'', [blob_b1])]\<rparr>"

section \<open>Waiting for a commit\<close>

text \<open>
  What \<open>AwaitWALCommitted\<close> does, in order: the two warnings, an atomic
  \<open>walNotifyListeners.Add(n)\<close>, and a receive from \<open>walCommitedNotify\<close>.
\<close>

datatype await_action =
    WarnCommitZero
  | WarnNoSyncer
  | ListenersAdd int
  | Receive uint64

text \<open>
  The \<open>for\<close> loop of \<open>AwaitWALCommitted\<close>. The second argument is the sequence of
  values that the channel delivers to this caller; when it is exhausted the caller stays
  blocked in the receive, having incremented the listener count. The result is the trace
  of actions and whether the function returned.
\<close>

fun await_loop :: "uint64 \<Rightarrow> uint64 list \<Rightarrow> await_action list \<times> bool" where
  "await_loop commit [] = ([ListenersAdd 1], False)"
| "await_loop commit (idFromChan # rest) =
     (if idFromChan \<ge> commit
      then ([ListenersAdd 1, Receive idFromChan, ListenersAdd (- 1)], True)
      else (case await_loop commit rest of
              (tr, returned) \<Rightarrow>
                (ListenersAdd 1 # Receive idFromChan # ListenersAdd (- 1) # tr, returned)))"

text \<open>
  \<open>AwaitWALCommitted\<close>; \<open>None\<close> is the panic of a nil dereference, when the manager has
  no commit counters.
\<close>

definition AwaitWALCommitted ::
  "IndexManager \<Rightarrow> uint64 \<Rightarrow> uint64 list \<Rightarrow> (await_action list \<times> bool) option" where
  "AwaitWALCommitted im commit delivered =
     (if commit = 0 then Some ([WarnCommitZero], True)
      else
        (let warn = (if \<not> walSyncerRunning im then [WarnNoSyncer] else []) in
         case IsWALCommited im commit of
           None \<Rightarrow> None
         | Some True \<Rightarrow> Some (warn, True)
         | Some False \<Rightarrow>
             (case walNotifyListeners im of
                None \<Rightarrow> None
              | Some _ \<Rightarrow>
                  (case await_loop commit delivered of
                     (tr, returned) \<Rightarrow> Some (warn @ tr, returned)))))"

text \<open>One round of the loop as the claim describes it, for the statement of the trace.\<close>

definition await_round :: "uint64 \<Rightarrow> await_action list" where
  "await_round v = [ListenersAdd 1, Receive v, ListenersAdd (- 1)]"

section \<open>The goroutines of a manager\<close>

text \<open>
  \<open>NewIndexManager\<close> starts three goroutines: the forwarder of the stop signal and of
  the dump errors (the anonymous function), \<open>periodicDump\<close>, and in grouped-commit mode
  \<open>walCommitsSyncer\<close>. \<open>Close\<close> runs in the caller's goroutine. Each goroutine is a
  program counter with its local variables; a step of the system is a step of one
  goroutine, or a rendezvous of a sender and a receiver on an unbuffered channel.
\<close>

datatype syncer_pc =
    SyncNotStarted
  | SyncEntry
  | SyncValidate
  | SyncLoopTop
  | SyncSelect
  | SyncSleep
  | SyncLoad
  | SyncFsync
  | SyncStore
  | SyncListeners
  | SyncNotify
  | SyncDeferClose
  | SyncDeferStore
  | SyncReturned
  | SyncPanicked

record syncer =
  sync_pc :: syncer_pc
  stopping :: bool
  lastTrySyncDuration :: Duration
  sleepTime :: Duration
  flyingCommit :: uint64
  commited :: uint64
  listeners :: int64
  notify_i :: int64

datatype close_pc =
    CloseNotCalled
  | CloseStopTicker
  | CloseSendStop
  | CloseSendWalStop
  | CloseRecvWalStop
  | ClosePerformDump
  | CloseWalFile
  | CloseIndexFile
  | CloseCheckSyncer
  | CloseReturned "error option"
  | ClosePanicked

datatype forwarder_pc = FwdSelect | FwdForward | FwdReturned

datatype dump_pc = DumpWait | DumpSendErr | DumpReturned

record system =
  manager :: IndexManager
  syncer :: syncer
  closer :: close_pc
  forwarder :: forwarder_pc
  dumper :: dump_pc
  ticker_stopped :: bool

text \<open>The state in which \<open>NewIndexManager\<close> returns the manager to its caller.\<close>

definition start :: "IndexManager \<Rightarrow> system" where
  "start im =
     \<lparr>manager = im,
      syncer = \<lparr>sync_pc = (if useCommit im then SyncEntry else SyncNotStarted),
                stopping = False, lastTrySyncDuration = 0, sleepTime = 0,
                flyingCommit = 0, commited = 0, listeners = 0, notify_i = 0\<rparr>,
      closer = CloseNotCalled,
      forwarder = FwdSelect,
      dumper = DumpWait,
      ticker_stopped = False\<rparr>"

text \<open>
  One step of \<open>walCommitsSyncer\<close>. The arguments are the outcome of the fsync and the
  time it took, used at \<open>SyncFsync\<close> only. \<open>None\<close>: the goroutine cannot move by
  itself (it is blocked in a send, or it is over). At \<open>SyncSelect\<close> the step is the
  \<open>default\<close> branch; the receive of a stop signal is the rendezvous \<open>stop_syncer\<close>
  below. The notify channel is unbuffered, so the loop that drains it does nothing.
\<close>

definition syncer_step :: "bool \<Rightarrow> Duration \<Rightarrow> system \<Rightarrow> system option" where
  "syncer_step fsync_ok elapsed s =
     (let y = syncer s; im = manager s in
      case sync_pc y of
        SyncNotStarted \<Rightarrow> None
      | SyncEntry \<Rightarrow>
          (if walSyncerRunning im then Some (s\<lparr>syncer := y\<lparr>sync_pc := SyncReturned\<rparr>\<rparr>)
           else Some (s\<lparr>manager := im\<lparr>walSyncerRunning := True\<rparr>,
                        syncer := y\<lparr>sync_pc := SyncValidate\<rparr>\<rparr>))
      | SyncValidate \<Rightarrow>
          Some (s\<lparr>manager :=
                    (if WalIoPercent im <s 1 \<or> 100 <s WalIoPercent im
                     then im\<lparr>WalIoPercent := 10\<rparr> else im),
                  syncer := y\<lparr>sync_pc := SyncLoopTop, lastTrySyncDuration := 0,
                              stopping := False\<rparr>\<rparr>)
      | SyncLoopTop \<Rightarrow>
          Some (s\<lparr>syncer := y\<lparr>sync_pc := (if stopping y then SyncDeferClose else SyncSelect)\<rparr>\<rparr>)
      | SyncSelect \<Rightarrow>
          (case walStopChan im of
             None \<Rightarrow> Some (s\<lparr>syncer := y\<lparr>sync_pc := SyncSleep\<rparr>\<rparr>)
           | Some c \<Rightarrow>
               if closed c then Some (s\<lparr>syncer := y\<lparr>sync_pc := SyncSleep, stopping := True\<rparr>\<rparr>)
               else Some (s\<lparr>syncer := y\<lparr>sync_pc := SyncSleep\<rparr>\<rparr>))
      | SyncSleep \<Rightarrow>
          (case syncerSleepTime (lastTrySyncDuration y) (WalIoPercent im) (WalMinInterval im) of
             None \<Rightarrow> Some (s\<lparr>syncer := y\<lparr>sync_pc := SyncPanicked\<rparr>\<rparr>)
           | Some t \<Rightarrow> Some (s\<lparr>syncer := y\<lparr>sync_pc := SyncLoad, sleepTime := t\<rparr>\<rparr>))
      | SyncLoad \<Rightarrow>
          (case walCommit im of
             None \<Rightarrow> Some (s\<lparr>syncer := y\<lparr>sync_pc := SyncPanicked\<rparr>\<rparr>)
           | Some flying \<Rightarrow> Some (s\<lparr>syncer := y\<lparr>sync_pc := SyncFsync, flyingCommit := flying\<rparr>\<rparr>))
      | SyncFsync \<Rightarrow>
          (if \<not> fsync_ok
           then Some (s\<lparr>syncer := y\<lparr>sync_pc := (if stopping y then SyncDeferClose else SyncLoopTop),
                                    lastTrySyncDuration := elapsed\<rparr>\<rparr>)
           else Some (s\<lparr>syncer := y\<lparr>sync_pc := SyncStore, lastTrySyncDuration := elapsed\<rparr>\<rparr>))
      | SyncStore \<Rightarrow>
          (case walCommited im of
             None \<Rightarrow> Some (s\<lparr>syncer := y\<lparr>sync_pc := SyncPanicked\<rparr>\<rparr>)
           | Some _ \<Rightarrow>
               Some (s\<lparr>manager := im\<lparr>walCommited := Some (flyingCommit y)\<rparr>,
                       syncer := y\<lparr>sync_pc := SyncListeners, commited := flyingCommit y\<rparr>\<rparr>))
      | SyncListeners \<Rightarrow>
          (case walNotifyListeners im of
             None \<Rightarrow> Some (s\<lparr>syncer := y\<lparr>sync_pc := SyncPanicked\<rparr>\<rparr>)
           | Some n \<Rightarrow> Some (s\<lparr>syncer := y\<lparr>sync_pc := SyncNotify, listeners := n, notify_i := 0\<rparr>\<rparr>))
      | SyncNotify \<Rightarrow>
          (if notify_i y <s listeners y then None
           else Some (s\<lparr>syncer := y\<lparr>sync_pc := SyncLoopTop\<rparr>\<rparr>))
      | SyncDeferClose \<Rightarrow>
          (case walStopChan im of
             None \<Rightarrow> Some (s\<lparr>syncer := y\<lparr>sync_pc := SyncPanicked\<rparr>\<rparr>)
           | Some c \<Rightarrow>
               if closed c then Some (s\<lparr>syncer := y\<lparr>sync_pc := SyncPanicked\<rparr>\<rparr>)
               else Some (s\<lparr>manager := im\<lparr>walStopChan := Some (c\<lparr>closed := True\<rparr>)\<rparr>,
                            syncer := y\<lparr>sync_pc := SyncDeferStore\<rparr>\<rparr>))
      | SyncDeferStore \<Rightarrow>
          Some (s\<lparr>manager := im\<lparr>walSyncerRunning := False\<rparr>,
                  syncer := y\<lparr>sync_pc := SyncReturned\<rparr>\<rparr>)
      | SyncReturned \<Rightarrow> None
      | SyncPanicked \<Rightarrow> None)"

text \<open>
  One step of \<open>Close\<close>; the argument is the outcome of the file operation of the step
  (the final dump, the two \<open>Close\<close> of files). A send on an unbuffered channel needs a
  receiver and is a rendezvous below; a send on a closed channel panics; a receive
  returns at once from a closed channel and never from a nil one.
\<close>

definition close_step :: "bool \<Rightarrow> system \<Rightarrow> system option" where
  "close_step ok s =
     (let im = manager s in
      case closer s of
        CloseNotCalled \<Rightarrow> Some (s\<lparr>closer := CloseStopTicker\<rparr>)
      | CloseStopTicker \<Rightarrow> Some (s\<lparr>closer := CloseSendStop, ticker_stopped := True\<rparr>)
      | CloseSendStop \<Rightarrow>
          (case stopChan im of
             None \<Rightarrow> None
           | Some c \<Rightarrow> if closed c then Some (s\<lparr>closer := ClosePanicked\<rparr>) else None)
      | CloseSendWalStop \<Rightarrow>
          (case walStopChan im of
             None \<Rightarrow> None
           | Some c \<Rightarrow> if closed c then Some (s\<lparr>closer := ClosePanicked\<rparr>) else None)
      | CloseRecvWalStop \<Rightarrow>
          (case walStopChan im of
             None \<Rightarrow> None
           | Some c \<Rightarrow> if closed c then Some (s\<lparr>closer := ClosePerformDump\<rparr>) else None)
      | ClosePerformDump \<Rightarrow>
          (case performDump ok im of
             (Some e, _) \<Rightarrow> Some (s\<lparr>closer := CloseReturned (Some ErrFinalDump)\<rparr>)
           | (None, im') \<Rightarrow> Some (s\<lparr>manager := im', closer := CloseWalFile\<rparr>))
      | CloseWalFile \<Rightarrow>
          (if ok then Some (s\<lparr>closer := CloseIndexFile\<rparr>)
           else Some (s\<lparr>closer := CloseReturned (Some ErrCloseWAL)\<rparr>))
      | CloseIndexFile \<Rightarrow>
          (if ok then Some (s\<lparr>closer := CloseCheckSyncer\<rparr>)
           else Some (s\<lparr>closer := CloseReturned (Some ErrCloseIndex)\<rparr>))
      | CloseCheckSyncer \<Rightarrow>
          (if walSyncerRunning im
           then Some (s\<lparr>closer := CloseReturned (Some ErrSyncerStillRunning)\<rparr>)
           else Some (s\<lparr>closer := CloseReturned None\<rparr>))
      | CloseReturned _ \<Rightarrow> None
      | ClosePanicked \<Rightarrow> None)"

text \<open>
  The rendezvous. \<open>stop_forwarder\<close>: \<open>im.stopChan <- struct{}{}\<close> in \<open>Close\<close> meets
  \<open>case stop := <-im.stopChan\<close> in the forwarder. \<open>stop_syncer\<close>:
  \<open>im.walStopChan <- struct{}{}\<close> meets \<open>case <-im.walStopChan\<close> in the syncer.
  \<open>stop_dumper\<close>: the forwarder's \<open>periodicDumpStopChan <- stop\<close> meets the receive in
  \<open>periodicDump\<close>. \<open>dump_error\<close>: an error sent by \<open>periodicDump\<close> meets
  \<open>case err := <-errChan\<close> in the forwarder.
\<close>

definition stop_forwarder :: "system \<Rightarrow> system option" where
  "stop_forwarder s =
     (case stopChan (manager s) of
        None \<Rightarrow> None
      | Some c \<Rightarrow>
          if \<not> closed c \<and> closer s = CloseSendStop \<and> forwarder s = FwdSelect
          then Some (s\<lparr>closer := CloseSendWalStop, forwarder := FwdForward\<rparr>)
          else None)"

definition stop_syncer :: "system \<Rightarrow> system option" where
  "stop_syncer s =
     (case walStopChan (manager s) of
        None \<Rightarrow> None
      | Some c \<Rightarrow>
          if \<not> closed c \<and> closer s = CloseSendWalStop \<and> sync_pc (syncer s) = SyncSelect
          then Some (s\<lparr>closer := CloseRecvWalStop,
                       syncer := (syncer s)\<lparr>sync_pc := SyncSleep, stopping := True\<rparr>\<rparr>)
          else None)"

definition stop_dumper :: "system \<Rightarrow> system option" where
  "stop_dumper s =
     (if forwarder s = FwdForward \<and> dumper s = DumpWait
      then Some (s\<lparr>forwarder := FwdReturned, dumper := DumpReturned\<rparr>)
      else None)"

definition dump_error :: "system \<Rightarrow> system option" where
  "dump_error s =
     (if dumper s = DumpSendErr \<and> forwarder s = FwdSelect
      then Some (s\<lparr>dumper := DumpWait\<rparr>)
      else None)"

text \<open>
  Modelled from the spec: \<open>periodicDump\<close> is not among the sources. On a tick of the
  dump ticker it takes a snapshot; a failed snapshot is reported on the error channel
  and the next tick retries.
\<close>

definition dump_tick :: "bool \<Rightarrow> system \<Rightarrow> system option" where
  "dump_tick ok s =
     (if dumper s = DumpWait \<and> \<not> ticker_stopped s
      then (case performDump ok (manager s) of
              (Some e, _) \<Rightarrow> Some (s\<lparr>dumper := DumpSendErr\<rparr>)
            | (None, im') \<Rightarrow> Some (s\<lparr>manager := im'\<rparr>))
      else None)"

text \<open>
  The callers of \<open>AwaitWALCommitted\<close>, seen from the manager: an increment and a
  decrement of \<open>walNotifyListeners\<close>, and a receive from \<open>walCommitedNotify\<close>, which
  meets one send of the syncer's loop \<open>for i := int64(0); i < listeners; i++\<close>.
\<close>

definition listeners_add :: "int64 \<Rightarrow> system \<Rightarrow> system option" where
  "listeners_add n s =
     (case walNotifyListeners (manager s) of
        None \<Rightarrow> None
      | Some k \<Rightarrow> Some (s\<lparr>manager := (manager s)\<lparr>walNotifyListeners := Some (k + n)\<rparr>\<rparr>))"

definition notify :: "system \<Rightarrow> (uint64 \<times> system) option" where
  "notify s =
     (let y = syncer s in
      if sync_pc y = SyncNotify \<and> notify_i y <s listeners y
      then Some (commited y, s\<lparr>syncer := y\<lparr>notify_i := notify_i y + 1\<rparr>\<rparr>)
      else None)"

text \<open>A call of \<open>WALCommit\<close> by any goroutine (\<open>addCommitted\<close>, \<open>popCommitted\<close> or a
  caller of the method itself).\<close>

definition call_WALCommit :: "system \<Rightarrow> (uint64 \<times> system) option" where
  "call_WALCommit s =
     (case WALCommit (manager s) of
        None \<Rightarrow> None
      | Some (commit, im') \<Rightarrow> Some (commit, s\<lparr>manager := im'\<rparr>))"

text \<open>
  The events of the system, and what a step shows to the outside: the commit id a
  \<open>WALCommit\<close> returns, the watermark an awaiting caller receives.
\<close>

datatype event =
    CallWALCommit
  | SyncerStep bool Duration
  | CloseStep bool
  | StopForwarder
  | StopSyncer
  | StopDumper
  | DumpTick bool
  | DumpError
  | AwaiterInc
  | AwaiterDec
  | AwaiterRecv

datatype obs = Silent | Commit uint64 | Notified uint64

definition silently :: "system option \<Rightarrow> (obs \<times> system) option" where
  "silently r = (case r of None \<Rightarrow> None | Some s \<Rightarrow> Some (Silent, s))"

text \<open>A panic of a goroutine ends the program: no step follows it.\<close>

definition crashed :: "system \<Rightarrow> bool" where
  "crashed s = (sync_pc (syncer s) = SyncPanicked \<or> closer s = ClosePanicked)"

definition step :: "event \<Rightarrow> system \<Rightarrow> (obs \<times> system) option" where
  "step e s =
     (if crashed s then None
      else case e of
        CallWALCommit \<Rightarrow>
          (case call_WALCommit s of None \<Rightarrow> None | Some (c, s') \<Rightarrow> Some (Commit c, s'))
      | SyncerStep fsync_ok elapsed \<Rightarrow> silently (syncer_step fsync_ok elapsed s)
      | CloseStep ok \<Rightarrow> silently (close_step ok s)
      | StopForwarder \<Rightarrow> silently (stop_forwarder s)
      | StopSyncer \<Rightarrow> silently (stop_syncer s)
      | StopDumper \<Rightarrow> silently (stop_dumper s)
      | DumpTick ok \<Rightarrow> silently (dump_tick ok s)
      | DumpError \<Rightarrow> silently (dump_error s)
      | AwaiterInc \<Rightarrow> silently (listeners_add 1 s)
      | AwaiterDec \<Rightarrow> silently (listeners_add (- 1) s)
      | AwaiterRecv \<Rightarrow>
          (case notify s of None \<Rightarrow> None | Some (c, s') \<Rightarrow> Some (Notified c, s')))"

text \<open>A run: a sequence of events, each possible where it occurs.\<close>

fun run :: "event list \<Rightarrow> system \<Rightarrow> (obs list \<times> system) option" where
  "run [] s = Some ([], s)"
| "run (e # es) s =
     (case step e s of
        None \<Rightarrow> None
      | Some (ob, s') \<Rightarrow>
          (case run es s' of
             None \<Rightarrow> None
           | Some (obs, s'') \<Rightarrow> Some (ob # obs, s'')))"

fun commit_ids :: "obs list \<Rightarrow> uint64 list" where
  "commit_ids [] = []"
| "commit_ids (Commit c # obs) = c # commit_ids obs"
| "commit_ids (_ # obs) = commit_ids obs"

definition commits :: "event list \<Rightarrow> nat" where
  "commits es = length (filter (\<lambda>e. e = CallWALCommit) es)"

text \<open>
  The invariant of the commit counters after \<open>k\<close> calls of \<open>WALCommit\<close>: both counters
  exist, \<open>flying\<close> is \<open>k\<close>, \<open>durable \<le> flying\<close>, and between the syncer's load of
  \<open>flying\<close> and its store into \<open>durable\<close> the loaded value lies between the two.
\<close>

definition commit_inv :: "nat \<Rightarrow> system \<Rightarrow> bool" where
  "commit_inv k s =
     (case (walCommit (manager s), walCommited (manager s)) of
        (Some flying, Some durable) \<Rightarrow>
          unat flying = k \<and> durable \<le> flying \<and>
          (if sync_pc (syncer s) = SyncFsync \<or> sync_pc (syncer s) = SyncStore
           then durable \<le> flyingCommit (syncer s) \<and> flyingCommit (syncer s) \<le> flying
           else True)
      | _ \<Rightarrow> False)"

definition durable_le :: "system \<Rightarrow> system \<Rightarrow> bool" where
  "durable_le s s' =
     (case (walCommited (manager s), walCommited (manager s')) of
        (Some d, Some d') \<Rightarrow> d \<le> d'
      | _ \<Rightarrow> False)"

text \<open>
  A run in grouped-commit mode: a commit, the syncer up to its sleep, a second commit,
  the load of \<open>flying\<close>, a third commit during a successful fsync; then the store into
  \<open>durable\<close> and a fourth commit.
\<close>

definition manager0 :: IndexManager where
  "manager0 = new_manager [] [] True"

definition events1 :: "event list" where
  "events1 = [CallWALCommit, SyncerStep True 0, SyncerStep True 0, SyncerStep True 0,
              SyncerStep True 0, SyncerStep True 0, CallWALCommit, SyncerStep True 0,
              CallWALCommit, SyncerStep True 5000000]"

definition events2 :: "event list" where
  "events2 = [SyncerStep True 0, CallWALCommit]"




text \<open>
  Close without grouped commit: the call of \<open>Close\<close>, a tick of the dump, the stop of
  the ticker. And a whole life of a manager in grouped-commit mode: the syncer reaches
  its \<open>select\<close>, \<open>Close\<close> hands the stop signal to the forwarder and to the syncer,
  the syncer makes its final sync and closes \<open>walStopChan\<close>, \<open>Close\<close> dumps and closes
  the files.
\<close>

definition close_events_sync :: "event list" where
  "close_events_sync = [CloseStep True, DumpTick True, CloseStep True]"

definition close_events_commit :: "event list" where
  "close_events_commit =
     [SyncerStep True 0, SyncerStep True 0, SyncerStep True 0,
      CloseStep True, CloseStep True, StopForwarder, StopDumper, StopSyncer,
      SyncerStep True 0, SyncerStep True 0, SyncerStep True 5000000, SyncerStep True 0,
      SyncerStep True 0, SyncerStep True 0, SyncerStep True 0, SyncerStep True 0,
      SyncerStep True 0,
      CloseStep True, CloseStep True, CloseStep True, CloseStep True, CloseStep True]"

section \<open>The handshake of Pop\<close>

text \<open>
  \<open>popCommitted\<close> and \<open>pop\<close> take the manager lock, make the three unbuffered channels
  \<open>blobChan\<close>, \<open>WALSuccessChan\<close> and \<open>errChan\<close>, start the helper goroutine and call
  \<open>im.hostIndex.pop\<close>. The caller's goroutine (with the index code it runs) and the
  helper are two program counters; a send and the matching receive are one rendezvous.
  What \<open>Pop\<close> returns is \<open>(commit, id, position, size, err)\<close>.
\<close>

type_synonym pop_result = "uint64 \<times> string \<times> uint64 \<times> uint64 \<times> error option"

datatype pop_main_pc =
    MainIndexPop
  | MainSendBlob "blob option"
  | MainWaitWAL blob
  | MainIndexReturned "index_error option"
  | MainRecvErr
  | MainCommit
  | MainReturned pop_result
  | MainPanicked

datatype pop_helper_pc =
    HelperRecvBlob
  | HelperGotBlob "blob option"
  | HelperSendErr blob
  | HelperSendFalse blob
  | HelperAssign blob
  | HelperSendTrue
  | HelperSendNil
  | HelperReturned
  | HelperPanicked

text \<open>
  \<open>pop_wal_ok\<close> is the outcome of the WAL append, decided by the file system;
  \<open>ret_id\<close>, \<open>ret_position\<close>, \<open>ret_size\<close> are the named results the helper assigns;
  \<open>chans_closed\<close> holds once the deferred \<open>close\<close> calls of the caller have run.
\<close>

record pop_state =
  pop_manager :: IndexManager
  pop_host :: string
  pop_wal_ok :: bool
  pop_main :: pop_main_pc
  pop_helper :: pop_helper_pc
  ret_id :: string
  ret_position :: uint64
  ret_size :: uint64
  chans_closed :: bool

definition pop_init :: "bool \<Rightarrow> string \<Rightarrow> IndexManager \<Rightarrow> pop_state" where
  "pop_init ok host im =
     \<lparr>pop_manager = im, pop_host = host, pop_wal_ok = ok,
      pop_main = MainIndexPop, pop_helper = HelperRecvBlob,
      ret_id = [], ret_position = 0, ret_size = 0, chans_closed = False\<rparr>"

text \<open>
  The steps of the caller. \<open>MainIndexPop\<close> and \<open>MainIndexReturned\<close> frame the call of
  \<open>Index.pop\<close>. Modelled from the spec: \<open>Index.pop\<close> is not among the sources. It peeks
  the oldest blob of the host and sends it on \<open>blobChan\<close>, nil when the host has no blob,
  in which case it returns the empty-queue error without waiting; otherwise it waits on
  \<open>WALSuccessChan\<close>, removes the blob on \<open>true\<close> and leaves it in place on \<open>false\<close>.
  On a return the deferred calls close the three channels.
\<close>

definition pop_return :: "pop_result \<Rightarrow> pop_state \<Rightarrow> pop_state" where
  "pop_return r c = c\<lparr>pop_main := MainReturned r, chans_closed := True\<rparr>"

definition main_step :: "pop_state \<Rightarrow> pop_state option" where
  "main_step c =
     (let im = pop_manager c in
      case pop_main c of
        MainIndexPop \<Rightarrow>
          Some (c\<lparr>pop_main := MainSendBlob
                  (case index_queue (hostIndex im) (pop_host c) of
                     [] \<Rightarrow> None
                   | b # _ \<Rightarrow> Some b)\<rparr>)
      | MainIndexReturned (Some e) \<Rightarrow> Some (pop_return (0, [], 0, 0, Some (ErrIndex e)) c)
      | MainIndexReturned None \<Rightarrow> Some (c\<lparr>pop_main := MainRecvErr\<rparr>)
      | MainCommit \<Rightarrow>
          (if useCommit im
           then (case WALCommit im of
                   None \<Rightarrow> Some (c\<lparr>pop_main := MainPanicked\<rparr>)
                 | Some (commit, im') \<Rightarrow>
                     Some (pop_return (commit, ret_id c, ret_position c, ret_size c, None)
                       (c\<lparr>pop_manager := im'\<lparr>opsSinceDump := opsSinceDump im' + 1,
                                             totalOps := totalOps im' + 1\<rparr>\<rparr>)))
           else Some (pop_return (0, ret_id c, ret_position c, ret_size c, None)
                  (c\<lparr>pop_manager := im\<lparr>opsSinceDump := opsSinceDump im + 1,
                                       totalOps := totalOps im + 1\<rparr>\<rparr>)))
      | _ \<Rightarrow> None)"

text \<open>
  The steps of the helper, the anonymous function of \<open>popCommitted\<close> and \<open>pop\<close>. After
  a failed WAL write it sends the error on \<open>errChan\<close>, then \<open>false\<close> on
  \<open>WALSuccessChan\<close>, and goes on (there is no \<open>return\<close>) to the assignments and the two
  sends of the successful path. A send on a closed channel panics; a receive from a
  closed channel yields nil.
\<close>

definition helper_step :: "pop_state \<Rightarrow> pop_state option" where
  "helper_step c =
     (case pop_helper c of
        HelperRecvBlob \<Rightarrow>
          (if chans_closed c then Some (c\<lparr>pop_helper := HelperGotBlob None\<rparr>) else None)
      | HelperGotBlob None \<Rightarrow> Some (c\<lparr>pop_helper := HelperReturned\<rparr>)
      | HelperGotBlob (Some b) \<Rightarrow>
          (case unsafeWriteToWAL (pop_wal_ok c) OpPop (pop_host c)
                  (blob_id b) (blob_position b) (blob_size b) (pop_manager c) of
             (Some e, im') \<Rightarrow> Some (c\<lparr>pop_manager := im', pop_helper := HelperSendErr b\<rparr>)
           | (None, im') \<Rightarrow> Some (c\<lparr>pop_manager := im', pop_helper := HelperAssign b\<rparr>))
      | HelperAssign b \<Rightarrow>
          Some (c\<lparr>ret_id := blob_id b, ret_position := blob_position b,
                  ret_size := blob_size b, pop_helper := HelperSendTrue\<rparr>)
      | HelperSendErr b \<Rightarrow>
          (if chans_closed c then Some (c\<lparr>pop_helper := HelperPanicked\<rparr>) else None)
      | HelperSendFalse b \<Rightarrow>
          (if chans_closed c then Some (c\<lparr>pop_helper := HelperPanicked\<rparr>) else None)
      | HelperSendTrue \<Rightarrow>
          (if chans_closed c then Some (c\<lparr>pop_helper := HelperPanicked\<rparr>) else None)
      | HelperSendNil \<Rightarrow>
          (if chans_closed c then Some (c\<lparr>pop_helper := HelperPanicked\<rparr>) else None)
      | HelperReturned \<Rightarrow> None
      | HelperPanicked \<Rightarrow> None)"

text \<open>The rendezvous on \<open>blobChan\<close>, on \<open>WALSuccessChan\<close> and on \<open>errChan\<close>.\<close>

definition blob_rendezvous :: "pop_state \<Rightarrow> pop_state option" where
  "blob_rendezvous c =
     (case (pop_main c, pop_helper c) of
        (MainSendBlob None, HelperRecvBlob) \<Rightarrow>
          (if chans_closed c then None
           else Some (c\<lparr>pop_main := MainIndexReturned (Some ErrEmpty),
                        pop_helper := HelperGotBlob None\<rparr>))
      | (MainSendBlob (Some b), HelperRecvBlob) \<Rightarrow>
          (if chans_closed c then None
           else Some (c\<lparr>pop_main := MainWaitWAL b, pop_helper := HelperGotBlob (Some b)\<rparr>))
      | _ \<Rightarrow> None)"

definition wal_rendezvous :: "pop_state \<Rightarrow> pop_state option" where
  "wal_rendezvous c =
     (let im = pop_manager c; host = pop_host c in
      case (pop_main c, pop_helper c) of
        (MainWaitWAL b, HelperSendTrue) \<Rightarrow>
          (if chans_closed c then None
           else Some (c\<lparr>pop_manager :=
                          im\<lparr>hostIndex := index_put (hostIndex im) host
                                             (tl (index_queue (hostIndex im) host))\<rparr>,
                        pop_main := MainIndexReturned None,
                        pop_helper := HelperSendNil\<rparr>))
      | (MainWaitWAL b, HelperSendFalse b') \<Rightarrow>
          (if chans_closed c then None
           else Some (c\<lparr>pop_main := MainIndexReturned None, pop_helper := HelperAssign b'\<rparr>))
      | _ \<Rightarrow> None)"

definition err_rendezvous :: "pop_state \<Rightarrow> pop_state option" where
  "err_rendezvous c =
     (case (pop_main c, pop_helper c) of
        (MainRecvErr, HelperSendErr b) \<Rightarrow>
          (if chans_closed c then None
           else Some (pop_return (0, [], 0, 0, Some ErrWriteWAL)
                        (c\<lparr>pop_helper := HelperSendFalse b\<rparr>)))
      | (MainRecvErr, HelperSendNil) \<Rightarrow>
          (if chans_closed c then None
           else Some (c\<lparr>pop_main := MainCommit, pop_helper := HelperReturned\<rparr>))
      | _ \<Rightarrow> None)"

text \<open>The configurations one step away, and those a number of steps away, a
  configuration without a step staying where it is.\<close>

fun somes :: "'a option list \<Rightarrow> 'a list" where
  "somes [] = []"
| "somes (None # xs) = somes xs"
| "somes (Some x # xs) = x # somes xs"

definition pop_succs :: "pop_state \<Rightarrow> pop_state list" where
  "pop_succs c =
     somes [main_step c, helper_step c, blob_rendezvous c, wal_rendezvous c, err_rendezvous c]"

fun pop_after :: "nat \<Rightarrow> pop_state \<Rightarrow> pop_state list" where
  "pop_after 0 c = [c]"
| "pop_after (Suc n) c =
     concat (map (\<lambda>c'. if pop_succs c' = [] then [c'] else pop_succs c') (pop_after n c))"

inductive pop_reach :: "pop_state \<Rightarrow> pop_state \<Rightarrow> bool" for c0 :: pop_state where
  reach_init: "pop_reach c0 c0"
| reach_step: "pop_reach c0 c \<Longrightarrow> c' \<in> set (pop_succs c) \<Longrightarrow> pop_reach c0 c'"

text \<open>\<open>Pop\<close> has returned.\<close>

fun pop_returned :: "pop_main_pc \<Rightarrow> bool" where
  "pop_returned (MainReturned _) = True"
| "pop_returned _ = False"

text \<open>A configuration of the handshake in which the manager and the named results are
  as at the start.\<close>

definition pop_cfg ::
  "bool \<Rightarrow> string \<Rightarrow> IndexManager \<Rightarrow> pop_main_pc \<Rightarrow> pop_helper_pc \<Rightarrow> bool \<Rightarrow> pop_state" where
  "pop_cfg ok host im m h cl =
     (pop_init ok host im)\<lparr>pop_main := m, pop_helper := h, chans_closed := cl\<rparr>"

definition empty_result :: pop_result where
  "empty_result = (0, [], 0, 0, Some (ErrIndex ErrEmpty))"

text \<open>
  The limit that the field \<open>WalIoPercent\<close> documents (``limit max io percentage for WAL
  sync''): of a cycle made of one sync and the sleep before the next, the sync takes at
  most \<open>p\<close> percent.
\<close>

definition within_io_percent :: "int \<Rightarrow> int \<Rightarrow> int \<Rightarrow> bool" where
  "within_io_percent p syncDuration sleep = (100 * syncDuration \<le> p * (syncDuration + sleep))"

section \<open>Properties of the commit counters and of Add\<close>

text \<open>
  Claim C7. For every commit value \<open>c\<close>, \<open>IsWALCommited(c)\<close> returns true if and only if
  \<open>c \<le> durable\<close>, the current value of the durable counter.
\<close>

theorem IsWALCommited_iff:
  "walCommited im = Some durable \<Longrightarrow> IsWALCommited im c = Some (c \<le> durable)"
  by (simp add: IsWALCommited_def)

theorem IsWALCommited_iff_witness:
  "walCommited (new_manager [] [] True) = Some 0
     \<and> IsWALCommited (new_manager [] [] True) 0 = Some (0 \<le> (0::uint64))
     \<and> IsWALCommited (new_manager [] [] True) 5 = Some (5 \<le> (0::uint64))"
  using IsWALCommited_iff [of "new_manager [] [] True" 0 0]
    IsWALCommited_iff [of "new_manager [] [] True" 0 5]
  by (simp add: new_manager_def)

text \<open>
  Claim C10. In grouped-commit mode, an Add whose WAL append succeeds but whose Index
  apply fails (duplicate host+id) still consumes a commit id: \<open>flying\<close> is incremented
  before the Index is updated, and the non-zero commit id is returned to the caller
  together with the error. The counter is a 64-bit word: the id is non-zero as long as
  the counter has not reached \<open>2 ^ 64 - 1\<close>.
\<close>

theorem Add_duplicate_consumes_commit:
  assumes "useCommit im" and "walCommit im = Some flying" and "unat flying + 1 < 2 ^ 64"
    and "i \<in> blob_id ` set (index_queue (hostIndex im) host)"
  shows "Add True host i pos sz im =
           Some ((flying + 1, Some (ErrUpdateIndex ErrDuplicate)),
                 im\<lparr>walFile := walFile im @
                       [\<lparr>Op = OpAdd, Host = host, BlobID = i, Position = pos, Size = sz\<rparr>],
                    walCommit := Some (flying + 1)\<rparr>)
         \<and> flying + 1 \<noteq> 0"
proof -
  have nz: "flying + 1 \<noteq> 0"
  proof
    assume "flying + 1 = 0"
    then have "unat (flying + 1) = 0" by simp
    moreover have "unat (flying + 1) = unat flying + 1"
      using assms(3) by (simp add: unat_word_ariths)
    ultimately show False by simp
  qed
  have "Add True host i pos sz im = addCommitted True host i pos sz im"
    using assms(1) by (simp add: Add_def)
  also have "\<dots> = Some ((flying + 1, Some (ErrUpdateIndex ErrDuplicate)),
                 im\<lparr>walFile := walFile im @
                       [\<lparr>Op = OpAdd, Host = host, BlobID = i, Position = pos, Size = sz\<rparr>],
                    walCommit := Some (flying + 1)\<rparr>)"
    using assms(2,4)
    by (simp add: addCommitted_def unsafeWriteToWAL_def WALCommit_def index_add_def)
  finally show ?thesis using nz by simp
qed

theorem Add_duplicate_consumes_commit_witness:
  "Add True ''h'' ''b1'' 100 5 (manager_b1 True) =
     Some ((1, Some (ErrUpdateIndex ErrDuplicate)),
           (manager_b1 True)
             \<lparr>walFile := [\<lparr>Op = OpAdd, Host = ''h'', BlobID = ''b1'', Position = 100, Size = 5\<rparr>],
              walCommit := Some 1\<rparr>)"
  using Add_duplicate_consumes_commit [of "manager_b1 True" 0 "''b1''" "''h''" 100 5]
  by (simp add: manager_b1_def blob_b1_def new_manager_def index_queue_def)

section \<open>Properties of the syncer's sleep\<close>

text \<open>With the default \<open>WalIoPercent = 10\<close> the quotient is exact, and the code computes
  the sleep of the formula as long as nine times the last sync fits 63 bits.\<close>

lemma go_div_default: "go_div 90 10 = 9"
  by (simp add: go_div_def signed_divide_int_def)

lemma sint_times_9:
  assumes "0 \<le> sint (d::Duration)" "sint d * 9 < 2 ^ 63"
  shows "sint (d * 9) = sint d * 9"
proof -
  have "sint (d * 9) = signed_take_bit 63 (sint d * sint (9::Duration))"
    by (simp add: sint_word_ariths)
  also have "sint (9::Duration) = 9" by simp
  also have "signed_take_bit 63 (sint d * 9) = sint d * 9"
    using assms by (intro signed_take_bit_int_eq_self) auto
  finally show ?thesis .
qed

lemma syncerSleepTime_default:
  assumes "0 \<le> sint d" "sint d * 9 < 2 ^ 63"
  shows "\<exists>w. syncerSleepTime d 10 m = Some w \<and> sint w = spec_sleep (sint d) 10 (sint m)"
  using sint_times_9 [OF assms]
  by (auto simp: syncerSleepTime_def go_div_default spec_sleep_def word_sless_alt Let_def)

text \<open>
  Claim C5. In every syncer iteration, the sleep before the next fsync equals
  \<open>max(WalMinInterval, lastSyncDuration \<times> (100\<minus>p)/p)\<close> where \<open>p = WalIoPercent\<close>, for every
  \<open>p\<close> in \<open>[1,100]\<close>. The code divides first, on integers: with \<open>p = 60\<close>, a last sync
  of one second and the default minimum of 10 ms it sleeps 10 ms, where the formula gives
  666 ms; the sync then takes more than 60 percent of the cycle, the limit that the
  field \<open>WalIoPercent\<close> documents.
\<close>

theorem syncerSleepTime_truncates_quotient:
  "syncerSleepTime 1000000000 60 10000000 = Some 10000000
     \<and> spec_sleep 1000000000 60 10000000 = 666666666
     \<and> \<not> within_io_percent 60 1000000000 10000000"
  by (simp add: syncerSleepTime_def go_div_def signed_divide_int_def word_sless_alt
      spec_sleep_def within_io_percent_def)

section \<open>Properties of construction\<close>

text \<open>
  Claim C9. On construction, if the WAL file is non-empty \<open>NewIndexManager\<close> runs crash
  recovery (replaying the WAL on top of the snapshot) before returning; if the WAL is
  empty it loads the snapshot only. It returns a manager whenever the file operations
  succeed.
\<close>

theorem NewIndexManager_recovers_or_loads:
  "(NewIndexManager fs walData indexData commit = Inr im \<longrightarrow>
      (if walData \<noteq> []
       then hostIndex im = replay walData (replay indexData newIndex)
              \<and> indexFile im = dump_index (hostIndex im) \<and> walFile im = []
       else hostIndex im = replay indexData newIndex
              \<and> indexFile im = indexData \<and> walFile im = []))
   \<and> (openWAL_ok fs \<and> openIndex_ok fs \<and> statWAL_ok fs \<and> loadIndex_ok fs
        \<and> (walData = [] \<or> dump_ok fs)
      \<longrightarrow> (\<exists>im'. NewIndexManager fs walData indexData commit = Inr im'))"
  by (auto simp: NewIndexManager_def unsafeIsWALEmpty_def RecoverFromCrash_def loadIndex_def
       performDump_def new_manager_def Let_def split: if_splits prod.splits option.splits)

theorem NewIndexManager_recovers_or_loads_witness:
  "\<exists>im. NewIndexManager io_ok [add_b1] [] False = Inr im
      \<and> hostIndex im = [(''h'', [blob_b1])] \<and> indexFile im = [add_b1] \<and> walFile im = []"
proof -
  obtain im where im: "NewIndexManager io_ok [add_b1] [] False = Inr im"
    using NewIndexManager_recovers_or_loads [of io_ok "[add_b1]" "[]" False]
    by (auto simp: io_ok_def)
  have "hostIndex im = replay [add_b1] (replay [] newIndex)
          \<and> indexFile im = dump_index (hostIndex im) \<and> walFile im = []"
    using NewIndexManager_recovers_or_loads [of io_ok "[add_b1]" "[]" False im] im by simp
  moreover have "replay [add_b1] (replay [] newIndex) = [(''h'', [blob_b1])]"
    by (simp add: replay_def replay_entry_def newIndex_def index_add_def index_queue_def
        index_put_def add_b1_def blob_b1_def)
  moreover have "dump_index [(''h'', [blob_b1])] = [add_b1]"
    by (simp add: dump_index_def add_b1_def blob_b1_def)
  ultimately show ?thesis using im by auto
qed

section \<open>Properties of AwaitWALCommitted\<close>

text \<open>The trace of the loop: one round per value delivered below \<open>commit\<close>, then the
  round of the first value that reaches it, or a last increment when none does.\<close>

lemma await_loop_trace:
  "await_loop commit vs =
     (concat (map await_round (takeWhile (\<lambda>v. v < commit) vs)) @
        (case dropWhile (\<lambda>v. v < commit) vs of [] \<Rightarrow> [ListenersAdd 1] | v # _ \<Rightarrow> await_round v),
      dropWhile (\<lambda>v. v < commit) vs \<noteq> [])"
  by (induction vs) (auto simp: await_round_def not_less)

text \<open>
  Claim C6. \<open>AwaitWALCommitted(0)\<close> returns immediately as a no-op (with a warning); for
  \<open>commit > 0\<close> it returns immediately if the commit is already durable, and otherwise
  it increments \<open>walNotifyListeners\<close> before blocking on a receive from the notify
  channel, decrements the count after the receive, and loops until a received watermark
  is at least \<open>commit\<close>.
\<close>

theorem AwaitWALCommitted_protocol:
  "AwaitWALCommitted im 0 vs = Some ([WarnCommitZero], True)
   \<and> (commit \<noteq> 0 \<and> walCommited im = Some durable \<and> walNotifyListeners im = Some n \<longrightarrow>
        AwaitWALCommitted im commit vs =
          Some ((if walSyncerRunning im then [] else [WarnNoSyncer]) @
                (if commit \<le> durable then []
                 else concat (map await_round (takeWhile (\<lambda>v. v < commit) vs)) @
                      (case dropWhile (\<lambda>v. v < commit) vs of
                         [] \<Rightarrow> [ListenersAdd 1]
                       | v # _ \<Rightarrow> await_round v)),
                commit \<le> durable \<or> (\<exists>v \<in> set vs. commit \<le> v)))"
proof -
  have zero: "AwaitWALCommitted im 0 vs = Some ([WarnCommitZero], True)"
    by (simp add: AwaitWALCommitted_def)
  have fast: "AwaitWALCommitted im commit vs =
      Some ((if walSyncerRunning im then [] else [WarnNoSyncer]), True)"
    if "commit \<noteq> 0" "walCommited im = Some durable" "commit \<le> durable"
    using that by (simp add: AwaitWALCommitted_def IsWALCommited_def)
  have slow: "AwaitWALCommitted im commit vs =
      Some ((if walSyncerRunning im then [] else [WarnNoSyncer]) @
            concat (map await_round (takeWhile (\<lambda>v. v < commit) vs)) @
              (case dropWhile (\<lambda>v. v < commit) vs of
                 [] \<Rightarrow> [ListenersAdd 1]
               | v # _ \<Rightarrow> await_round v),
            \<exists>v \<in> set vs. commit \<le> v)"
    if "commit \<noteq> 0" "walCommited im = Some durable" "\<not> commit \<le> durable"
      "walNotifyListeners im = Some n"
    using that
    by (simp add: AwaitWALCommitted_def IsWALCommited_def await_loop_trace
        dropWhile_eq_Nil_conv not_less)
  show ?thesis
  proof (cases "commit \<le> durable")
    case True
    then show ?thesis using zero fast by simp
  next
    case False
    then show ?thesis using zero slow by simp
  qed
qed

theorem AwaitWALCommitted_protocol_witness:
  "AwaitWALCommitted (new_manager [] [] True) 0 [] = Some ([WarnCommitZero], True)
   \<and> AwaitWALCommitted (new_manager [] [] True) 3 [1, 2, 5, 7] =
       Some ([WarnNoSyncer, ListenersAdd 1, Receive 1, ListenersAdd (- 1),
              ListenersAdd 1, Receive 2, ListenersAdd (- 1),
              ListenersAdd 1, Receive 5, ListenersAdd (- 1)], True)"
  using AwaitWALCommitted_protocol [of "new_manager [] [] True" "[1, 2, 5, 7]" 3 0 0]
  by (simp add: new_manager_def await_round_def AwaitWALCommitted_def)

section \<open>Properties of the commit protocol\<close>

text \<open>Arithmetic of the 64-bit counter below its wrap-around.\<close>

lemma unat_succ: "unat (f::uint64) + 1 < 2 ^ 64 \<Longrightarrow> unat (f + 1) = unat f + 1"
  by (simp add: unat_word_ariths)

lemma le_succ: "unat (f::uint64) + 1 < 2 ^ 64 \<Longrightarrow> d \<le> f \<Longrightarrow> d \<le> f + 1"
  by (simp add: word_le_nat_alt unat_succ)

lemma commit_inv_iff:
  "commit_inv k s \<longleftrightarrow>
     (\<exists>f d. walCommit (manager s) = Some f \<and> walCommited (manager s) = Some d \<and>
        unat f = k \<and> d \<le> f \<and>
        (sync_pc (syncer s) = SyncFsync \<or> sync_pc (syncer s) = SyncStore \<longrightarrow>
           d \<le> flyingCommit (syncer s) \<and> flyingCommit (syncer s) \<le> f))"
  by (auto simp: commit_inv_def split: option.splits if_splits)

lemma commit_step_inv:
  assumes "call_WALCommit s = Some (c, s')" "commit_inv k s" "k + 1 < 2 ^ 64"
  shows "commit_inv (k + 1) s' \<and> durable_le s s' \<and> unat c = k + 1"
proof -
  from assms(2) obtain f d where fd: "walCommit (manager s) = Some f" "walCommited (manager s) = Some d"
     "unat f = k" "d \<le> f"
     "sync_pc (syncer s) = SyncFsync \<or> sync_pc (syncer s) = SyncStore \<longrightarrow>
        d \<le> flyingCommit (syncer s) \<and> flyingCommit (syncer s) \<le> f"
    unfolding commit_inv_iff by blast
  have s': "s' = s\<lparr>manager := (manager s)\<lparr>walCommit := Some (f + 1)\<rparr>\<rparr>" and c: "c = f + 1"
    using assms(1) fd(1) by (auto simp: call_WALCommit_def WALCommit_def)
  have u: "unat (f + 1) = k + 1" using unat_succ[of f] fd(3) assms(3) by simp
  have l: "d \<le> f + 1" using le_succ[of f d] fd(3,4) assms(3) by simp
  have l2: "flyingCommit (syncer s) \<le> f \<Longrightarrow> flyingCommit (syncer s) \<le> f + 1"
    using le_succ[of f "flyingCommit (syncer s)"] fd(3) assms(3) by simp
  show ?thesis
    using fd u l l2 by (auto simp: s' c commit_inv_iff durable_le_def)
qed


lemma syncer_step_inv:
  assumes "syncer_step ok e s = Some s'" "commit_inv k s"
  shows "commit_inv k s' \<and> durable_le s s'"
proof -
  from assms(2) obtain f d where fd: "walCommit (manager s) = Some f" "walCommited (manager s) = Some d"
     "unat f = k" "d \<le> f"
     "sync_pc (syncer s) = SyncFsync \<or> sync_pc (syncer s) = SyncStore \<longrightarrow>
        d \<le> flyingCommit (syncer s) \<and> flyingCommit (syncer s) \<le> f"
    unfolding commit_inv_iff by blast
  show ?thesis
  proof (cases "sync_pc (syncer s)")
    case SyncEntry
    with assms(1) fd show ?thesis
      by (auto simp: syncer_step_def Let_def commit_inv_iff durable_le_def split: if_splits)
  qed (insert assms(1) fd, auto simp: syncer_step_def Let_def commit_inv_iff durable_le_def split: if_splits option.splits)
qed


lemma frame_inv:
  assumes "commit_inv k s"
    and "walCommit (manager s') = walCommit (manager s)"
    and "walCommited (manager s') = walCommited (manager s)"
    and "flyingCommit (syncer s') = flyingCommit (syncer s)"
    and "sync_pc (syncer s') = SyncFsync \<or> sync_pc (syncer s') = SyncStore
           \<Longrightarrow> sync_pc (syncer s') = sync_pc (syncer s)"
  shows "commit_inv k s' \<and> durable_le s s'"
  using assms unfolding commit_inv_iff durable_le_def by auto


lemma performDump_frame:
  "performDump ok im = (r, im') \<Longrightarrow>
     walCommit im' = walCommit im \<and> walCommited im' = walCommited im \<and> stopChan im' = stopChan im
     \<and> walStopChan im' = walStopChan im \<and> walSyncerRunning im' = walSyncerRunning im
     \<and> useCommit im' = useCommit im"
  by (cases ok) (auto simp: performDump_def)

lemma close_step_frame:
  assumes "close_step ok s = Some s'"
  shows "syncer s' = syncer s \<and> walCommit (manager s') = walCommit (manager s)
     \<and> walCommited (manager s') = walCommited (manager s)"
proof (cases "closer s")
  case ClosePerformDump
  obtain r im' where p: "performDump ok (manager s) = (r, im')" by (cases "performDump ok (manager s)")
  from performDump_frame [OF p] assms ClosePerformDump p show ?thesis
    by (cases r) (auto simp: close_step_def)
qed (insert assms, auto simp: close_step_def split: if_splits option.splits)


lemma dump_tick_frame:
  assumes "dump_tick ok s = Some s'"
  shows "syncer s' = syncer s \<and> walCommit (manager s') = walCommit (manager s)
     \<and> walCommited (manager s') = walCommited (manager s)"
proof -
  obtain r im' where p: "performDump ok (manager s) = (r, im')" by (cases "performDump ok (manager s)")
  from performDump_frame [OF p] assms p show ?thesis
    by (cases r) (auto simp: dump_tick_def split: if_splits)
qed

lemma stops_frame:
  assumes "stop_forwarder s = Some s' \<or> stop_dumper s = Some s' \<or> dump_error s = Some s'"
  shows "syncer s' = syncer s \<and> manager s' = manager s"
  using assms
  by (auto simp: stop_forwarder_def stop_dumper_def dump_error_def split: if_splits option.splits)


lemma stop_syncer_frame:
  assumes "stop_syncer s = Some s'"
  shows "manager s' = manager s \<and> flyingCommit (syncer s') = flyingCommit (syncer s)
     \<and> sync_pc (syncer s') = SyncSleep"
  using assms by (auto simp: stop_syncer_def split: if_splits option.splits)

lemma listeners_add_frame:
  assumes "listeners_add n s = Some s'"
  shows "syncer s' = syncer s \<and> walCommit (manager s') = walCommit (manager s)
     \<and> walCommited (manager s') = walCommited (manager s)"
  using assms by (auto simp: listeners_add_def split: option.splits)

lemma notify_frame:
  assumes "notify s = Some (c, s')"
  shows "manager s' = manager s \<and> flyingCommit (syncer s') = flyingCommit (syncer s)
     \<and> sync_pc (syncer s') = sync_pc (syncer s)"
  using assms by (auto simp: notify_def Let_def split: if_splits)

lemma silently_Some: "silently r = Some (ob, s') \<longleftrightarrow> ob = Silent \<and> r = Some s'"
  by (auto simp: silently_def split: option.splits)

lemma step_inv:
  assumes "step e s = Some (ob, s')" "commit_inv k s" "k + commits [e] < 2 ^ 64"
  shows "commit_inv (k + commits [e]) s' \<and> durable_le s s'
     \<and> (case ob of Commit c \<Rightarrow> unat c = k + 1 \<and> e = CallWALCommit | _ \<Rightarrow> e \<noteq> CallWALCommit)"
proof (cases e)
  case CallWALCommit
  with assms(1) obtain c where c: "call_WALCommit s = Some (c, s')" "ob = Commit c"
    by (auto simp: step_def split: if_splits option.splits)
  from commit_step_inv [OF c(1) assms(2)] assms(3) CallWALCommit c(2) show ?thesis
    by (simp add: commits_def)
next
  case (SyncerStep ok d)
  with assms(1) have "syncer_step ok d s = Some s'" "ob = Silent"
    by (auto simp: step_def silently_Some split: if_splits)
  with syncer_step_inv [OF this(1) assms(2)] SyncerStep show ?thesis
    by (simp add: commits_def)
next
  case (CloseStep ok)
  with assms(1) have *: "close_step ok s = Some s'" "ob = Silent"
    by (auto simp: step_def silently_Some split: if_splits)
  from close_step_frame [OF *(1)] have "commit_inv k s' \<and> durable_le s s'"
    by (intro frame_inv [OF assms(2)]) simp_all
  with * CloseStep show ?thesis by (simp add: commits_def)
next
  case StopForwarder
  with assms(1) have *: "stop_forwarder s = Some s'" "ob = Silent"
    by (auto simp: step_def silently_Some split: if_splits)
  from stops_frame [of s s'] *(1) have "commit_inv k s' \<and> durable_le s s'"
    by (intro frame_inv [OF assms(2)]) simp_all
  with * StopForwarder show ?thesis by (simp add: commits_def)
next
  case StopSyncer
  with assms(1) have *: "stop_syncer s = Some s'" "ob = Silent"
    by (auto simp: step_def silently_Some split: if_splits)
  from stop_syncer_frame [OF *(1)] have "commit_inv k s' \<and> durable_le s s'"
    by (intro frame_inv [OF assms(2)]) simp_all
  with * StopSyncer show ?thesis by (simp add: commits_def)
next
  case StopDumper
  with assms(1) have *: "stop_dumper s = Some s'" "ob = Silent"
    by (auto simp: step_def silently_Some split: if_splits)
  from stops_frame [of s s'] *(1) have "commit_inv k s' \<and> durable_le s s'"
    by (intro frame_inv [OF assms(2)]) simp_all
  with * StopDumper show ?thesis by (simp add: commits_def)
next
  case (DumpTick ok)
  with assms(1) have *: "dump_tick ok s = Some s'" "ob = Silent"
    by (auto simp: step_def silently_Some split: if_splits)
  from dump_tick_frame [OF *(1)] have "commit_inv k s' \<and> durable_le s s'"
    by (intro frame_inv [OF assms(2)]) simp_all
  with * DumpTick show ?thesis by (simp add: commits_def)
next
  case DumpError
  with assms(1) have *: "dump_error s = Some s'" "ob = Silent"
    by (auto simp: step_def silently_Some split: if_splits)
  from stops_frame [of s s'] *(1) have "commit_inv k s' \<and> durable_le s s'"
    by (intro frame_inv [OF assms(2)]) simp_all
  with * DumpError show ?thesis by (simp add: commits_def)
next
  case AwaiterInc
  with assms(1) have *: "listeners_add 1 s = Some s'" "ob = Silent"
    by (auto simp: step_def silently_Some split: if_splits)
  from listeners_add_frame [OF *(1)] have "commit_inv k s' \<and> durable_le s s'"
    by (intro frame_inv [OF assms(2)]) simp_all
  with * AwaiterInc show ?thesis by (simp add: commits_def)
next
  case AwaiterDec
  with assms(1) have *: "listeners_add (- 1) s = Some s'" "ob = Silent"
    by (auto simp: step_def silently_Some split: if_splits)
  from listeners_add_frame [OF *(1)] have "commit_inv k s' \<and> durable_le s s'"
    by (intro frame_inv [OF assms(2)]) simp_all
  with * AwaiterDec show ?thesis by (simp add: commits_def)
next
  case AwaiterRecv
  with assms(1) obtain c where *: "notify s = Some (c, s')" "ob = Notified c"
    by (auto simp: step_def split: if_splits option.splits)
  from notify_frame [OF *(1)] have "commit_inv k s' \<and> durable_le s s'"
    by (intro frame_inv [OF assms(2)]) simp_all
  with * AwaiterRecv show ?thesis by (simp add: commits_def)
qed


lemma durable_le_refl: "commit_inv k s \<Longrightarrow> durable_le s s"
  unfolding commit_inv_iff durable_le_def by auto

lemma durable_le_trans: "durable_le s s' \<Longrightarrow> durable_le s' s'' \<Longrightarrow> durable_le s s''"
  unfolding durable_le_def by (auto split: option.splits)

lemma commits_Cons: "commits (e # es) = commits [e] + commits es"
  by (simp add: commits_def)

lemma commits_append: "commits (es @ es') = commits es + commits es'"
  by (simp add: commits_def)

lemma run_inv:
  "run es s = Some (obs, s') \<Longrightarrow> commit_inv k s \<Longrightarrow> k + commits es < 2 ^ 64 \<Longrightarrow>
     commit_inv (k + commits es) s' \<and> durable_le s s' \<and> sorted_wrt (<) (commit_ids obs)
     \<and> (\<forall>c \<in> set (commit_ids obs). k < unat c \<and> unat c \<le> k + commits es)"
proof (induction es arbitrary: s k obs)
  case Nil
  then show ?case by (simp add: commits_def durable_le_refl)
next
  case (Cons e es)
  from Cons.prems(1) obtain ob s1 obs1 where
    st: "step e s = Some (ob, s1)" and rn: "run es s1 = Some (obs1, s')" and obs: "obs = ob # obs1"
    by (auto split: option.splits)
  have b1: "k + commits [e] < 2 ^ 64" and b2: "(k + commits [e]) + commits es < 2 ^ 64"
    using Cons.prems(3) commits_Cons [of e es] by simp_all
  from step_inv [OF st Cons.prems(2) b1]
  have i1: "commit_inv (k + commits [e]) s1" and d1: "durable_le s s1"
    and o1: "case ob of Commit c \<Rightarrow> unat c = k + 1 \<and> e = CallWALCommit | _ \<Rightarrow> e \<noteq> CallWALCommit"
    by simp_all
  from Cons.IH [OF rn i1 b2]
  have i2: "commit_inv (k + commits [e] + commits es) s'" and d2: "durable_le s1 s'"
    and so: "sorted_wrt (<) (commit_ids obs1)"
    and bd: "\<forall>c \<in> set (commit_ids obs1). k + commits [e] < unat c \<and> unat c \<le> k + commits [e] + commits es"
    by simp_all
  have inv: "commit_inv (k + commits (e # es)) s'"
    using i2 commits_Cons [of e es] by (simp add: add.assoc)
  have dl: "durable_le s s'" using d1 d2 by (rule durable_le_trans)
  show ?case
  proof (cases ob)
    case (Commit c)
    with o1 have c: "unat c = k + 1" "e = CallWALCommit" by simp_all
    then have ce: "commits [e] = 1" by (simp add: commits_def)
    have "\<forall>c' \<in> set (commit_ids obs1). c < c'"
      using bd c(1) ce by (auto simp: word_less_nat_alt)
    then show ?thesis using inv dl so bd c ce Commit obs commits_Cons [of e es]
      by auto
  next
    case Silent
    then show ?thesis using inv dl so bd obs commits_Cons [of e es] by auto
  next
    case (Notified c)
    then show ?thesis using inv dl so bd obs commits_Cons [of e es] by auto
  qed
qed

lemma run_append:
  "run es s = Some (obs, s') \<Longrightarrow> run es' s' = Some (obs', s'') \<Longrightarrow>
     run (es @ es') s = Some (obs @ obs', s'')"
  by (induction es arbitrary: s obs) (auto split: option.splits)

lemma NewIndexManager_frame:
  assumes "NewIndexManager fs walData indexData commit = Inr im"
  shows "useCommit im = commit
     \<and> walCommit im = (if commit then Some 0 else None)
     \<and> walCommited im = (if commit then Some 0 else None)
     \<and> stopChan im = (if commit then Some make_chan else None)
     \<and> walStopChan im = (if commit then Some make_chan else None)
     \<and> walSyncerRunning im = False"
  using assms
  by (auto simp: NewIndexManager_def unsafeIsWALEmpty_def RecoverFromCrash_def loadIndex_def
       performDump_def new_manager_def Let_def split: if_splits prod.splits option.splits)

lemma start_inv:
  assumes "NewIndexManager fs walData indexData True = Inr im"
  shows "commit_inv 0 (start im)"
  using NewIndexManager_frame [OF assms] by (simp add: commit_inv_iff start_def)

text \<open>
  Claim C3. In grouped-commit mode, at every point of every run the commit counters
  satisfy \<open>durable \<le> flying\<close>; commit ids returned by successive \<open>WALCommit\<close> calls
  are strictly increasing in issue order; and \<open>durable\<close> is monotone non-decreasing over
  the run. Stated for any two points \<open>s1\<close>, \<open>s2\<close> of a run from the state in which
  \<open>NewIndexManager\<close> returns, the second after the first; the counters are 64-bit words,
  and the run makes fewer than \<open>2 ^ 64\<close> commits.
\<close>

theorem commit_counters_monotone:
  assumes "NewIndexManager fs walData indexData True = Inr im"
    and "run es1 (start im) = Some (obs1, s1)"
    and "run es2 s1 = Some (obs2, s2)"
    and "commits (es1 @ es2) < 2 ^ 64"
  shows "\<exists>flying1 durable1 flying2 durable2.
           walCommit (manager s1) = Some flying1 \<and> walCommited (manager s1) = Some durable1
         \<and> walCommit (manager s2) = Some flying2 \<and> walCommited (manager s2) = Some durable2
         \<and> durable1 \<le> flying1 \<and> durable2 \<le> flying2 \<and> durable1 \<le> durable2
         \<and> sorted_wrt (<) (commit_ids (obs1 @ obs2))"
proof -
  have i0: "commit_inv 0 (start im)" by (rule start_inv [OF assms(1)])
  have b1: "0 + commits es1 < 2 ^ 64" and b2: "(0 + commits es1) + commits es2 < 2 ^ 64"
    and b: "0 + commits (es1 @ es2) < 2 ^ 64"
    using assms(4) by (simp_all add: commits_append)
  from run_inv [OF assms(2) i0 b1] have i1: "commit_inv (0 + commits es1) s1" by simp
  from run_inv [OF assms(3) i1 b2] have i2: "commit_inv (0 + commits es1 + commits es2) s2"
    and dl: "durable_le s1 s2" by simp_all
  from run_inv [OF run_append [OF assms(2,3)] i0 b]
  have so: "sorted_wrt (<) (commit_ids (obs1 @ obs2))" by simp
  from i1 i2 dl so show ?thesis
    unfolding commit_inv_iff durable_le_def by auto
qed


text \<open>The definitions that evaluate a run on concrete events.\<close>

lemmas step_defs = step_def crashed_def silently_def call_WALCommit_def WALCommit_def
  syncer_step_def close_step_def stop_forwarder_def stop_syncer_def stop_dumper_def
  dump_error_def dump_tick_def listeners_add_def notify_def performDump_def
  syncerSleepTime_def go_div_def signed_divide_int_def word_sless_alt

lemma NewIndexManager_manager0: "NewIndexManager io_ok [] [] True = Inr manager0"
  by (simp add: NewIndexManager_def io_ok_def manager0_def unsafeIsWALEmpty_def loadIndex_def
      new_manager_def replay_def newIndex_def)

theorem commit_counters_monotone_witness:
  "\<exists>obs1 s1 obs2 s2.
      run events1 (start manager0) = Some (obs1, s1) \<and> run events2 s1 = Some (obs2, s2)
    \<and> commit_ids (obs1 @ obs2) = [1, 2, 3, 4]
    \<and> sorted_wrt (<) (commit_ids (obs1 @ obs2))
    \<and> walCommit (manager s2) = Some 4 \<and> walCommited (manager s2) = Some 2
    \<and> (\<exists>durable1. walCommited (manager s1) = Some durable1 \<and> durable1 \<le> 2)"
proof -
  have "\<exists>obs1 s1 obs2 s2.
      run events1 (start manager0) = Some (obs1, s1) \<and> run events2 s1 = Some (obs2, s2)
      \<and> commit_ids (obs1 @ obs2) = [1, 2, 3, 4]
      \<and> walCommit (manager s2) = Some 4 \<and> walCommited (manager s2) = Some 2"
    by (simp add: events1_def events2_def start_def manager0_def new_manager_def make_chan_def
        step_defs)
  then obtain obs1 s1 obs2 s2 where r1: "run events1 (start manager0) = Some (obs1, s1)"
    and r2: "run events2 s1 = Some (obs2, s2)"
    and v: "commit_ids (obs1 @ obs2) = [1, 2, 3, 4]" "walCommit (manager s2) = Some 4"
      "walCommited (manager s2) = Some 2"
    by blast
  have c: "commits (events1 @ events2) < 2 ^ 64"
    by (simp add: commits_def events1_def events2_def)
  from commit_counters_monotone [OF NewIndexManager_manager0 r1 r2 c] v r1 r2
  show ?thesis by auto
qed




lemma syncer_event_step:
  "step (SyncerStep ok d) s = Some (ob, s') \<longleftrightarrow>
     \<not> crashed s \<and> ob = Silent \<and> syncer_step ok d s = Some s'"
  by (auto simp: step_def silently_Some)







section \<open>Properties of Close\<close>

text \<open>No step assigns \<open>stopChan\<close>; while it is nil, \<open>Close\<close> cannot pass its first send.\<close>

lemma close_step_stopChan:
  assumes "close_step ok s = Some s'"
  shows "stopChan (manager s') = stopChan (manager s)"
proof (cases "closer s")
  case ClosePerformDump
  obtain r im' where p: "performDump ok (manager s) = (r, im')" by (cases "performDump ok (manager s)")
  from performDump_frame [OF p] assms ClosePerformDump p show ?thesis
    by (cases r) (auto simp: close_step_def)
qed (insert assms, auto simp: close_step_def split: if_splits option.splits)

lemma dump_tick_stopChan:
  assumes "dump_tick ok s = Some s'"
  shows "stopChan (manager s') = stopChan (manager s) \<and> closer s' = closer s"
proof -
  obtain r im' where p: "performDump ok (manager s) = (r, im')" by (cases "performDump ok (manager s)")
  from performDump_frame [OF p] assms p show ?thesis
    by (cases r) (auto simp: dump_tick_def split: if_splits)
qed

lemma syncer_step_stopChan:
  assumes "syncer_step ok d s = Some s'"
  shows "stopChan (manager s') = stopChan (manager s) \<and> closer s' = closer s"
  using assms
  by (cases "sync_pc (syncer s)")
    (auto simp: syncer_step_def Let_def split: if_splits option.splits)

lemma close_step_blocked:
  assumes "close_step ok s = Some s'" "stopChan (manager s) = None"
    and "closer s = CloseNotCalled \<or> closer s = CloseStopTicker \<or> closer s = CloseSendStop"
  shows "closer s' = CloseStopTicker \<or> closer s' = CloseSendStop"
  using assms by (auto simp: close_step_def)

lemma step_blocked:
  assumes "step e s = Some (ob, s')" "stopChan (manager s) = None"
    and "closer s = CloseNotCalled \<or> closer s = CloseStopTicker \<or> closer s = CloseSendStop"
  shows "stopChan (manager s') = None
     \<and> (closer s' = CloseNotCalled \<or> closer s' = CloseStopTicker \<or> closer s' = CloseSendStop)"
proof (cases e)
  case CallWALCommit
  with assms show ?thesis
    by (auto simp: step_def call_WALCommit_def WALCommit_def split: if_splits option.splits)
next
  case (SyncerStep ok d)
  with assms(1) have "syncer_step ok d s = Some s'" by (simp add: syncer_event_step)
  from syncer_step_stopChan [OF this] assms(2,3) show ?thesis by simp
next
  case (CloseStep ok)
  with assms(1) have *: "close_step ok s = Some s'"
    by (auto simp: step_def silently_Some split: if_splits)
  from close_step_stopChan [OF *] close_step_blocked [OF * assms(2,3)] assms(2)
  show ?thesis by auto
next
  case StopForwarder
  with assms(1) have "stop_forwarder s = Some s'"
    by (auto simp: step_def silently_Some split: if_splits)
  with assms(2) show ?thesis by (simp add: stop_forwarder_def)
next
  case StopSyncer
  with assms(1) have "stop_syncer s = Some s'"
    by (auto simp: step_def silently_Some split: if_splits)
  with assms(3) show ?thesis by (auto simp: stop_syncer_def split: option.splits if_splits)
next
  case StopDumper
  with assms(1) have "stop_dumper s = Some s'"
    by (auto simp: step_def silently_Some split: if_splits)
  with assms(2,3) show ?thesis by (auto simp: stop_dumper_def split: if_splits)
next
  case (DumpTick ok)
  with assms(1) have "dump_tick ok s = Some s'"
    by (auto simp: step_def silently_Some split: if_splits)
  from dump_tick_stopChan [OF this] assms(2,3) show ?thesis by simp
next
  case DumpError
  with assms(1) have "dump_error s = Some s'"
    by (auto simp: step_def silently_Some split: if_splits)
  with assms(2,3) show ?thesis by (auto simp: dump_error_def split: if_splits)
next
  case AwaiterInc
  with assms(1) have "listeners_add 1 s = Some s'"
    by (auto simp: step_def silently_Some split: if_splits)
  with assms(2,3) show ?thesis by (auto simp: listeners_add_def split: option.splits)
next
  case AwaiterDec
  with assms(1) have "listeners_add (- 1) s = Some s'"
    by (auto simp: step_def silently_Some split: if_splits)
  with assms(2,3) show ?thesis by (auto simp: listeners_add_def split: option.splits)
next
  case AwaiterRecv
  with assms(1) obtain c where "notify s = Some (c, s')"
    by (auto simp: step_def split: if_splits option.splits)
  with assms(2,3) show ?thesis by (auto simp: notify_def Let_def split: if_splits)
qed

lemma run_blocked:
  "run es s = Some (obs, s') \<Longrightarrow> stopChan (manager s) = None \<Longrightarrow>
     closer s = CloseNotCalled \<or> closer s = CloseStopTicker \<or> closer s = CloseSendStop \<Longrightarrow>
     stopChan (manager s') = None
     \<and> (closer s' = CloseNotCalled \<or> closer s' = CloseStopTicker \<or> closer s' = CloseSendStop)"
proof (induction es arbitrary: s obs)
  case Nil
  then show ?case by simp
next
  case (Cons e es)
  from Cons.prems(1) obtain ob s1 obs1 where
    st: "step e s = Some (ob, s1)" and rn: "run es s1 = Some (obs1, s')"
    by (auto split: option.splits)
  from step_blocked [OF st Cons.prems(2,3)]
  have "stopChan (manager s1) = None"
    "closer s1 = CloseNotCalled \<or> closer s1 = CloseStopTicker \<or> closer s1 = CloseSendStop"
    by simp_all
  from Cons.IH [OF rn this] show ?case .
qed

text \<open>
  Claim C2. For every manager, in both modes, \<open>Close()\<close> terminates without deadlock.
  Without grouped commit it does not: \<open>stopChan\<close> and \<open>walStopChan\<close> are made only
  under \<open>if useCommit\<close>, so they are nil, and the first send of \<open>Close\<close>,
  \<open>im.stopChan <- struct{}{}\<close>, blocks forever. In every run from the state in which
  \<open>NewIndexManager\<close> returns, \<open>Close\<close> is not called, or is stopping the ticker, or is
  at that send, where neither a step of its own nor the rendezvous with the forwarder is
  possible.
\<close>

theorem Close_never_returns_without_commit:
  assumes "NewIndexManager fs walData indexData False = Inr im"
    and "run es (start im) = Some (obs, s)"
  shows "(closer s = CloseNotCalled \<or> closer s = CloseStopTicker \<or> closer s = CloseSendStop)
     \<and> (closer s = CloseSendStop \<longrightarrow>
           step (CloseStep ok) s = None \<and> step StopForwarder s = None)"
proof -
  from NewIndexManager_frame [OF assms(1)] have "stopChan (manager (start im)) = None"
    "closer (start im) = CloseNotCalled"
    by (simp_all add: start_def)
  with run_blocked [OF assms(2)]
  have "stopChan (manager s) = None"
    "closer s = CloseNotCalled \<or> closer s = CloseStopTicker \<or> closer s = CloseSendStop"
    by simp_all
  then show ?thesis
    by (auto simp: step_def silently_def close_step_def stop_forwarder_def)
qed

lemma NewIndexManager_sync: "NewIndexManager io_ok [] [] False = Inr (new_manager [] [] False)"
  by (simp add: NewIndexManager_def io_ok_def unsafeIsWALEmpty_def loadIndex_def
      new_manager_def replay_def newIndex_def)

theorem Close_never_returns_without_commit_witness:
  "\<exists>obs s. run close_events_sync (start (new_manager [] [] False)) = Some (obs, s)
      \<and> closer s = CloseSendStop
      \<and> step (CloseStep True) s = None \<and> step StopForwarder s = None"
proof -
  have "\<exists>obs s. run close_events_sync (start (new_manager [] [] False)) = Some (obs, s)
      \<and> closer s = CloseSendStop"
    by (simp add: close_events_sync_def start_def new_manager_def step_defs)
  then obtain obs s where r: "run close_events_sync (start (new_manager [] [] False)) = Some (obs, s)"
    and c: "closer s = CloseSendStop" by blast
  from Close_never_returns_without_commit [OF NewIndexManager_sync r, of True] c r
  show ?thesis by auto
qed

text \<open>In grouped-commit mode \<open>Close\<close> can return: the run \<open>close_events_commit\<close> ends
  with every goroutine over and no error.\<close>

lemma Close_returns_with_commit:
  "\<exists>obs s. run close_events_commit (start manager0) = Some (obs, s)
      \<and> closer s = CloseReturned None \<and> sync_pc (syncer s) = SyncReturned
      \<and> forwarder s = FwdReturned \<and> dumper s = DumpReturned"
  by (simp add: close_events_commit_def start_def manager0_def new_manager_def make_chan_def
      step_defs dump_index_def newIndex_def)

section \<open>Properties of Pop\<close>

text \<open>The configurations of a \<open>Pop\<close> on a host without blobs, and of one whose WAL
  append fails, step by step.\<close>

lemmas pop_defs = pop_succs_def main_step_def helper_step_def blob_rendezvous_def
  wal_rendezvous_def err_rendezvous_def pop_return_def pop_cfg_def pop_init_def
  unsafeWriteToWAL_def

lemma pop_cfg_init: "pop_init ok host im = pop_cfg ok host im MainIndexPop HelperRecvBlob False"
  by (simp add: pop_cfg_def pop_init_def)

lemma empty_succs:
  assumes "index_queue (hostIndex im) host = []"
  shows "pop_succs (pop_cfg ok host im MainIndexPop HelperRecvBlob False)
           = [pop_cfg ok host im (MainSendBlob None) HelperRecvBlob False]"
    and "pop_succs (pop_cfg ok host im (MainSendBlob None) HelperRecvBlob False)
           = [pop_cfg ok host im (MainIndexReturned (Some ErrEmpty)) (HelperGotBlob None) False]"
    and "pop_succs (pop_cfg ok host im (MainIndexReturned (Some ErrEmpty)) (HelperGotBlob None) False)
           = [pop_cfg ok host im (MainReturned empty_result) (HelperGotBlob None) True,
              pop_cfg ok host im (MainIndexReturned (Some ErrEmpty)) HelperReturned False]"
    and "pop_succs (pop_cfg ok host im (MainReturned empty_result) (HelperGotBlob None) True)
           = [pop_cfg ok host im (MainReturned empty_result) HelperReturned True]"
    and "pop_succs (pop_cfg ok host im (MainIndexReturned (Some ErrEmpty)) HelperReturned False)
           = [pop_cfg ok host im (MainReturned empty_result) HelperReturned True]"
    and "pop_succs (pop_cfg ok host im (MainReturned empty_result) HelperReturned True) = []"
  using assms by (simp_all add: pop_defs empty_result_def)

lemma empty_reach:
  assumes "index_queue (hostIndex im) host = []"
    and "pop_reach (pop_init ok host im) c"
  shows "c \<in> {pop_cfg ok host im MainIndexPop HelperRecvBlob False,
              pop_cfg ok host im (MainSendBlob None) HelperRecvBlob False,
              pop_cfg ok host im (MainIndexReturned (Some ErrEmpty)) (HelperGotBlob None) False,
              pop_cfg ok host im (MainReturned empty_result) (HelperGotBlob None) True,
              pop_cfg ok host im (MainIndexReturned (Some ErrEmpty)) HelperReturned False,
              pop_cfg ok host im (MainReturned empty_result) HelperReturned True}"
  using assms(2)
proof (induction rule: pop_reach.induct)
  case reach_init
  show ?case by (simp add: pop_cfg_init)
next
  case (reach_step c c')
  from reach_step.IH reach_step.hyps(2) show ?case
    using empty_succs [OF assms(1), of ok] by auto
qed

text \<open>
  Claim C8. For every host whose queue holds no blobs, \<open>Pop(host)\<close> returns an
  empty-queue error without appending anything to the WAL. Every interleaving of the
  caller and the helper ends, after four steps, in the one configuration where \<open>Pop\<close>
  has returned the error and the helper is over; and in every configuration on the way
  the manager, and so the WAL file, is what it was before the call.
\<close>

theorem Pop_empty_queue_leaves_WAL:
  assumes "index_queue (hostIndex im) host = []"
  shows "set (pop_after 4 (pop_init ok host im))
           = {pop_cfg ok host im (MainReturned empty_result) HelperReturned True}
     \<and> pop_succs (pop_cfg ok host im (MainReturned empty_result) HelperReturned True) = []
     \<and> (\<forall>c. pop_reach (pop_init ok host im) c \<longrightarrow>
           pop_manager c = im \<and> walFile (pop_manager c) = walFile im)"
proof -
  have a: "set (pop_after 4 (pop_init ok host im))
           = {pop_cfg ok host im (MainReturned empty_result) HelperReturned True}"
    using empty_succs [OF assms, of ok] by (simp add: eval_nat_numeral pop_cfg_init)
  have b: "pop_manager c = im" if "pop_reach (pop_init ok host im) c" for c
    using empty_reach [OF assms that] by (auto simp: pop_cfg_def pop_init_def)
  show ?thesis using a b empty_succs(6) [OF assms, of ok] by auto
qed


theorem Pop_empty_queue_leaves_WAL_witness:
  "set (pop_after 4 (pop_init True ''none'' (manager_b1 True)))
     = {pop_cfg True ''none'' (manager_b1 True) (MainReturned empty_result) HelperReturned True}
   \<and> walFile (pop_manager
         (pop_cfg True ''none'' (manager_b1 True) (MainReturned empty_result) HelperReturned True))
       = walFile (manager_b1 True)"
proof -
  have "index_queue (hostIndex (manager_b1 True)) ''none'' = []"
    by (simp add: manager_b1_def index_queue_def)
  from Pop_empty_queue_leaves_WAL [OF this, of True] show ?thesis
    by (simp add: pop_cfg_def pop_init_def)
qed

lemma failure_succs:
  assumes "index_queue (hostIndex im) host = b # q"
  shows "pop_succs (pop_cfg False host im MainIndexPop HelperRecvBlob False)
           = [pop_cfg False host im (MainSendBlob (Some b)) HelperRecvBlob False]"
    and "pop_succs (pop_cfg False host im (MainSendBlob (Some b)) HelperRecvBlob False)
           = [pop_cfg False host im (MainWaitWAL b) (HelperGotBlob (Some b)) False]"
    and "pop_succs (pop_cfg False host im (MainWaitWAL b) (HelperGotBlob (Some b)) False)
           = [pop_cfg False host im (MainWaitWAL b) (HelperSendErr b) False]"
    and "pop_succs (pop_cfg False host im (MainWaitWAL b) (HelperSendErr b) False) = []"
  using assms by (simp_all add: pop_defs)

lemma failure_reach:
  assumes "index_queue (hostIndex im) host = b # q"
    and "pop_reach (pop_init False host im) c"
  shows "c \<in> {pop_cfg False host im MainIndexPop HelperRecvBlob False,
              pop_cfg False host im (MainSendBlob (Some b)) HelperRecvBlob False,
              pop_cfg False host im (MainWaitWAL b) (HelperGotBlob (Some b)) False,
              pop_cfg False host im (MainWaitWAL b) (HelperSendErr b) False}"
  using assms(2)
proof (induction rule: pop_reach.induct)
  case reach_init
  show ?case by (simp add: pop_cfg_init)
next
  case (reach_step c c')
  from reach_step.IH reach_step.hyps(2) show ?case
    using failure_succs [OF assms(1)] by auto
qed

text \<open>
  Claim C1. When the Index hands over a non-nil peeked blob but the WAL append of the
  POP record fails, \<open>Pop\<close> returns that error and the in-memory Index is unchanged. The
  code does not return: the helper sends the error on \<open>errChan\<close> first, while the caller
  is still inside \<open>Index.pop\<close>, waiting on \<open>WALSuccessChan\<close>. After three steps every
  interleaving is in that configuration, which has no step; no reachable configuration
  has \<open>Pop\<close> returned.
\<close>

theorem Pop_WAL_failure_never_returns:
  assumes "index_queue (hostIndex im) host = b # q"
  shows "set (pop_after 3 (pop_init False host im))
           = {pop_cfg False host im (MainWaitWAL b) (HelperSendErr b) False}
     \<and> pop_succs (pop_cfg False host im (MainWaitWAL b) (HelperSendErr b) False) = []
     \<and> (\<forall>c. pop_reach (pop_init False host im) c \<longrightarrow> \<not> pop_returned (pop_main c))"
proof -
  have a: "set (pop_after 3 (pop_init False host im))
           = {pop_cfg False host im (MainWaitWAL b) (HelperSendErr b) False}"
    using failure_succs [OF assms] by (simp add: eval_nat_numeral pop_cfg_init)
  have b: "\<not> pop_returned (pop_main c)" if "pop_reach (pop_init False host im) c" for c
    using failure_reach [OF assms that] by (auto simp: pop_cfg_def pop_init_def)
  show ?thesis using a b failure_succs(4) [OF assms] by auto
qed

theorem Pop_WAL_failure_never_returns_witness:
  "set (pop_after 3 (pop_init False ''h'' (manager_b1 True)))
     = {pop_cfg False ''h'' (manager_b1 True) (MainWaitWAL blob_b1) (HelperSendErr blob_b1) False}
   \<and> pop_succs (pop_cfg False ''h'' (manager_b1 True)
          (MainWaitWAL blob_b1) (HelperSendErr blob_b1) False) = []"
proof -
  have "index_queue (hostIndex (manager_b1 True)) ''h'' = blob_b1 # []"
    by (simp add: manager_b1_def index_queue_def)
  from Pop_WAL_failure_never_returns [OF this] show ?thesis by simp
qed


text \<open>When the WAL append succeeds, \<open>Pop\<close> in grouped-commit mode returns the oldest
  blob of the host with the next commit id; the WAL holds the POP record and the blob
  has left the queue.\<close>

lemma Pop_success:
  assumes "index_queue (hostIndex im) host = b # q" and "useCommit im" and "walCommit im = Some flying"
  shows "\<exists>c. set (pop_after 8 (pop_init True host im)) = {c}
      \<and> pop_succs c = []
      \<and> pop_main c = MainReturned (flying + 1, blob_id b, blob_position b, blob_size b, None)
      \<and> pop_helper c = HelperReturned
      \<and> hostIndex (pop_manager c) = index_put (hostIndex im) host q
      \<and> walFile (pop_manager c) = walFile im @
            [\<lparr>Op = OpPop, Host = host, BlobID = blob_id b,
              Position = blob_position b, Size = blob_size b\<rparr>]
      \<and> walCommit (pop_manager c) = Some (flying + 1)"
proof -
  define im1 where "im1 = im\<lparr>walFile := walFile im @
             [\<lparr>Op = OpPop, Host = host, BlobID = blob_id b,
               Position = blob_position b, Size = blob_size b\<rparr>]\<rparr>"
  define im2 where "im2 = im1\<lparr>hostIndex := index_put (hostIndex im) host q\<rparr>"
  define c0 where "c0 = pop_init True host im"
  define c1 where "c1 = c0\<lparr>pop_main := MainSendBlob (Some b)\<rparr>"
  define c2 where "c2 = c0\<lparr>pop_main := MainWaitWAL b, pop_helper := HelperGotBlob (Some b)\<rparr>"
  define c3 where "c3 = c2\<lparr>pop_manager := im1, pop_helper := HelperAssign b\<rparr>"
  define c4 where "c4 = c3\<lparr>ret_id := blob_id b, ret_position := blob_position b,
                      ret_size := blob_size b, pop_helper := HelperSendTrue\<rparr>"
  define c5 where "c5 = c4\<lparr>pop_manager := im2, pop_main := MainIndexReturned None,
                      pop_helper := HelperSendNil\<rparr>"
  define c6 where "c6 = c5\<lparr>pop_main := MainRecvErr\<rparr>"
  define c7 where "c7 = c5\<lparr>pop_main := MainCommit, pop_helper := HelperReturned\<rparr>"
  define c8 where "c8 = c5\<lparr>pop_manager := im2\<lparr>walCommit := Some (flying + 1),
                                           opsSinceDump := opsSinceDump im + 1,
                                           totalOps := totalOps im + 1\<rparr>,
                      pop_main := MainReturned (flying + 1, blob_id b, blob_position b, blob_size b, None),
                      pop_helper := HelperReturned, chans_closed := True\<rparr>"
  note defs = im1_def im2_def c0_def c1_def c2_def c3_def c4_def c5_def c6_def c7_def c8_def
  have s: "pop_succs c0 = [c1]" "pop_succs c1 = [c2]" "pop_succs c2 = [c3]" "pop_succs c3 = [c4]"
      "pop_succs c4 = [c5]" "pop_succs c5 = [c6]" "pop_succs c6 = [c7]" "pop_succs c7 = [c8]"
      "pop_succs c8 = []"
    using assms by (simp_all add: pop_defs WALCommit_def defs)
  have "pop_after 8 c0 = [c8]"
    using s by (simp add: eval_nat_numeral)
  moreover have "pop_main c8 = MainReturned (flying + 1, blob_id b, blob_position b, blob_size b, None)"
    "pop_helper c8 = HelperReturned"
    "hostIndex (pop_manager c8) = index_put (hostIndex im) host q"
    "walFile (pop_manager c8) = walFile im @
            [\<lparr>Op = OpPop, Host = host, BlobID = blob_id b,
              Position = blob_position b, Size = blob_size b\<rparr>]"
    "walCommit (pop_manager c8) = Some (flying + 1)"
    by (simp_all add: defs)
  ultimately show ?thesis using s(9) unfolding c0_def by auto
qed

end
